theory Spec2Isabelle
  imports Main "HOL-Library.AList"
begin

section \<open>JavaScript values\<close>

text \<open>
  The renderer works on plain JavaScript data: tag-records are objects, feed items are
  arrays of them, and every test the code makes is a truthiness test. Values are
  modelled as a datatype. Numbers are integers (fractions and NaN do not occur in the
  properties below); an object is the list of its own properties in insertion order
  (keys that look like array indices, which JavaScript lists first, are not tag or
  attribute names).
\<close>

datatype jsval =
    JUndefined
  | JNull
  | JBool bool
  | JNum int
  | JStr string
  | JArr "jsval list"
  | JObj "(string \<times> jsval) list"

text \<open>\<open>!!v\<close>: undefined, null, false, 0 and the empty string are falsy.\<close>

fun truthy :: "jsval \<Rightarrow> bool" where
  "truthy JUndefined = False"
| "truthy JNull = False"
| "truthy (JBool b) = b"
| "truthy (JNum n) = (n \<noteq> 0)"
| "truthy (JStr s) = (s \<noteq> [])"
| "truthy (JArr xs) = True"
| "truthy (JObj ps) = True"

text \<open>
  Thrown values. \<open>Error\<close> is \<open>new Error(message)\<close>; \<open>TypeError\<close> is what the
  engine throws on a property read of null or undefined, or on a call of a non-function.
  The message texts of a \<open>TypeError\<close> are those of Node 8, which the repository's
  build runs on.
\<close>

datatype js_error = Error string | TypeError string

fun message :: "js_error \<Rightarrow> string" where
  "message (Error s) = s"
| "message (TypeError s) = s"

definition nullish :: "jsval \<Rightarrow> bool" where
  "nullish v = (v = JUndefined \<or> v = JNull)"

text \<open>
  \<open>v[k]\<close> for a value that is not null or undefined. The keys read by the renderer
  (\<open>image\<close>, \<open>category\<close>, \<open>url\<close>, \<open>item\<close>) are not properties of any built-in
  prototype, so a primitive or an array yields undefined.
\<close>

fun js_prop :: "jsval \<Rightarrow> string \<Rightarrow> jsval" where
  "js_prop (JObj ps) k = (case map_of ps k of None \<Rightarrow> JUndefined | Some v \<Rightarrow> v)"
| "js_prop v k = JUndefined"

definition quoted :: "string \<Rightarrow> string" where
  "quoted k = CHR 0x27 # k @ [CHR 0x27]"

definition nullish_name :: "jsval \<Rightarrow> string" where
  "nullish_name v = (if v = JNull then ''null'' else ''undefined'')"

text \<open>\<open>v[k]\<close> in general: reading a property of null or undefined throws.\<close>

definition getProp :: "jsval \<Rightarrow> string \<Rightarrow> js_error + jsval" where
  "getProp v k =
     (if nullish v
      then Inl (TypeError (''Cannot read property '' @ quoted k @ '' of '' @ nullish_name v))
      else Inr (js_prop v k))"

text \<open>\<open>array[i]\<close> for an integer \<open>i\<close>: undefined outside the array, also at \<open>-1\<close>.\<close>

definition array_get :: "jsval list \<Rightarrow> int \<Rightarrow> jsval" where
  "array_get xs i = (if 0 \<le> i \<and> i < int (length xs) then xs ! nat i else JUndefined)"

text \<open>
  \<open>array.splice(start, 1)\<close>, the array afterwards. A negative start counts from the
  end, so \<open>splice(-1, 1)\<close> removes the last element.
\<close>

definition splice1 :: "int \<Rightarrow> 'a list \<Rightarrow> 'a list" where
  "splice1 start xs =
     (let len = int (length xs);
          actualStart = (if start < 0 then max (len + start) 0 else min start len)
      in take (nat actualStart) xs @ drop (nat actualStart + 1) xs)"

section \<open>The entry normalizer\<close>

text \<open>
  \<^verbatim>\<open>
  function findIndexOfElementInArray(array, element) {
    return _findIndex(array, (item) => item[element]);
  }
  \<close>
  lodash's \<open>findIndex\<close> returns the index of the first element on which the predicate is
  truthy, and \<open>-1\<close> when there is none. The predicate reads a property, so it throws on
  an element that is null or undefined, if the scan gets that far. The scan is written
  as a recursion on the array: an index found in the rest counts one more.
\<close>

fun findIndexOfElementInArray :: "jsval list \<Rightarrow> string \<Rightarrow> js_error + int" where
  "findIndexOfElementInArray [] element = Inr (- 1)"
| "findIndexOfElementInArray (item # rest) element =
     (case getProp item element of
        Inl e \<Rightarrow> Inl e
      | Inr v \<Rightarrow>
          if truthy v then Inr 0
          else (case findIndexOfElementInArray rest element of
                  Inl e \<Rightarrow> Inl e
                | Inr i \<Rightarrow> if i = - 1 then Inr (- 1) else Inr (i + 1)))"

text \<open>
  \<^verbatim>\<open>
  function wrapInItem(entry) {
    if (entry.length) {
      const imageIndex = findIndexOfElementInArray(entry, 'image');
      if (imageIndex !== -1) {
        entry.splice(imageIndex, 1);
      }
    }
    return { item: entry };
  }
  \<close>
  \<open>splice\<close> changes the caller's array. The model returns the array as it is after the
  call together with the returned object, which holds that same array.
\<close>

definition wrapInItem :: "jsval list \<Rightarrow> js_error + (jsval list \<times> jsval)" where
  "wrapInItem entry =
     (if entry \<noteq> [] then
        (case findIndexOfElementInArray entry ''image'' of
           Inl e \<Rightarrow> Inl e
         | Inr imageIndex \<Rightarrow>
             let entry' = (if imageIndex \<noteq> - 1 then splice1 imageIndex entry else entry)
             in Inr (entry', JObj [(''item'', JArr entry')]))
      else Inr (entry, JObj [(''item'', JArr entry)]))"

section \<open>Category elevation\<close>

text \<open>
  \<open>String(v)\<close> and \<open>array.join(',')\<close>. \<open>join\<close> writes null and undefined
  elements as the empty string, and an array inside an array is joined in turn. Objects
  are plain data, so they print as \<open>[object Object]\<close>. Integers are printed with all
  their digits; JavaScript does so below \<open>10^21\<close> and switches to exponent form from
  there on, which is outside the model.
\<close>

fun digit_char :: "nat \<Rightarrow> char" where
  "digit_char n = char_of (48 + n)"

fun nat_digits :: "nat \<Rightarrow> string" where
  "nat_digits n = (if n < 10 then [digit_char n] else nat_digits (n div 10) @ [digit_char (n mod 10)])"

definition int_digits :: "int \<Rightarrow> string" where
  "int_digits i = (if i < 0 then CHR ''-'' # nat_digits (nat (- i)) else nat_digits (nat i))"

fun join_with :: "string \<Rightarrow> string list \<Rightarrow> string" where
  "join_with sep [] = []"
| "join_with sep [s] = s"
| "join_with sep (s # t # rest) = s @ sep @ join_with sep (t # rest)"

fun toString :: "jsval \<Rightarrow> string" where
  "toString JUndefined = ''undefined''"
| "toString JNull = ''null''"
| "toString (JBool b) = (if b then ''true'' else ''false'')"
| "toString (JNum n) = int_digits n"
| "toString (JStr s) = s"
| "toString (JArr xs) = join_with '','' (map (\<lambda>x. if nullish x then [] else toString x) xs)"
| "toString (JObj ps) = ''[object Object]''"

definition array_join :: "jsval list \<Rightarrow> string \<Rightarrow> string" where
  "array_join xs sep = join_with sep (map (\<lambda>x. if nullish x then [] else toString x) xs)"

text \<open>\<open>array.map(f)\<close> for a callback that may throw: the first throw ends the call.\<close>

fun array_map :: "('a \<Rightarrow> js_error + 'b) \<Rightarrow> 'a list \<Rightarrow> js_error + 'b list" where
  "array_map f [] = Inr []"
| "array_map f (x # xs) =
     (case f x of
        Inl e \<Rightarrow> Inl e
      | Inr y \<Rightarrow> (case array_map f xs of Inl e \<Rightarrow> Inl e | Inr ys \<Rightarrow> Inr (y # ys)))"

text \<open>
  \<^verbatim>\<open>
  function elevateCategory(group) {
    return group
      .map(({ item }) => {
        return item
          .filter(entry => entry && entry.category)
          .map(entry => entry.category)
          .join(',');
      })
      .filter(Boolean)
      .map(string => ({ category: string }));
  }
  \<close>
  The callback of the outer \<open>map\<close> is \<open>itemCategories\<close>: it destructures one element of
  the group and joins the truthy categories of that element's \<open>item\<close> array.
\<close>

definition itemCategories :: "jsval \<Rightarrow> js_error + string" where
  "itemCategories g =
     (if nullish g
      then Inl (TypeError (''Cannot destructure property `item` of '' @ quoted ''undefined''
                           @ '' or '' @ quoted ''null'' @ ''.''))
      else
        (case js_prop g ''item'' of
           JArr item \<Rightarrow>
             Inr (array_join
                    (map (\<lambda>entry. js_prop entry ''category'')
                       (filter (\<lambda>entry. truthy entry \<and> truthy (js_prop entry ''category'')) item))
                    '','')
         | JUndefined \<Rightarrow> Inl (TypeError (''Cannot read property '' @ quoted ''filter'' @ '' of undefined''))
         | JNull \<Rightarrow> Inl (TypeError (''Cannot read property '' @ quoted ''filter'' @ '' of null''))
         | _ \<Rightarrow> Inl (TypeError ''item.filter is not a function'')))"

definition elevateCategory :: "jsval list \<Rightarrow> js_error + jsval list" where
  "elevateCategory grp =
     (case array_map itemCategories grp of
        Inl e \<Rightarrow> Inl e
      | Inr strings \<Rightarrow>
          Inr (map (\<lambda>string. JObj [(''category'', JStr string)])
                 (filter (\<lambda>string. string \<noteq> []) strings)))"

section \<open>The metadata assembler\<close>

text \<open>
  The \<open>meta\<close> object, one field per property that \<open>feedMetaTags\<close> destructures; a
  property the caller left out is \<open>JUndefined\<close>. The field \<open>image_meta\<close> is the
  property \<open>image\<close>.
\<close>

record meta =
  title :: jsval
  description :: jsval
  link :: jsval
  copyright :: jsval
  generator :: jsval
  docs :: jsval
  opt :: jsval
  image_meta :: jsval
  elevateChannelCategories :: jsval

text \<open>
  \<open>new Date()\<close> as the assembler observes it: the text that date-fns prints for the
  pattern \<open>ddd, DD MMM YYYY HH:mm:ss ZZ\<close>, and \<open>getFullYear()\<close>.
\<close>

record date =
  format :: string
  getFullYear :: int

definition docsUrl :: string where
  "docsUrl = ''http://blogs.law.harvard.edu/tech/rss''"

definition generatorMessage :: string where
  "generatorMessage = ''Feed delivered by Clay''"

definition requiredMessage :: string where
  "requiredMessage =
     ''A `title`, `description` and `link` property are all required in the `meta` object for the RSS renderer''"

text \<open>
  \<^verbatim>\<open>
  function formatImageTag(url, link, title) {
    return { image: [ { url }, { link }, { title } ] };
  }
  \<close>
\<close>

definition formatImageTag :: "jsval \<Rightarrow> jsval \<Rightarrow> jsval \<Rightarrow> jsval" where
  "formatImageTag url link' title' =
     JObj [(''image'', JArr [JObj [(''url'', url)], JObj [(''link'', link')], JObj [(''title'', title')]])]"

text \<open>\<open>array.concat(v)\<close>: an array argument is spread, anything else is appended.\<close>

fun array_concat :: "jsval list \<Rightarrow> jsval \<Rightarrow> jsval list" where
  "array_concat xs (JArr ys) = xs @ ys"
| "array_concat xs v = xs @ [v]"

text \<open>A destructuring default \<open>{ name = d }\<close> applies when the property is undefined.\<close>

definition with_default :: "jsval \<Rightarrow> jsval \<Rightarrow> jsval" where
  "with_default v d = (if v = JUndefined then d else v)"

text \<open>
  \<^verbatim>\<open>
  function feedMetaTags({ title, description, link, copyright,
    generator = generatorMessage, docs = docsUrl, opt, image,
    elevateChannelCategories = true }) {
    return (group) => {
      if (!title || !description || !link) {
        throw new Error('A `title`, `description` and `link` property are all required in the `meta` object for the RSS renderer');
      }
      const now = new Date();
      let siteMeta = [
        { title },
        { description },
        { link },
        { lastBuildDate: format(now, 'ddd, DD MMM YYYY HH:mm:ss ZZ') },
        { docs },
        { copyright: copyright || now.getFullYear() },
        { generator }
      ];
      if (opt) {
        siteMeta = siteMeta.concat(opt);
      }
      if (image) {
        siteMeta = siteMeta.concat(formatImageTag(image.url, link, title));
      }
      const channelCats = elevateChannelCategories
        ? elevateCategory(group)
        : [];
      return siteMeta.concat(channelCats, group);
    };
  }
  \<close>
  \<open>docsUrl\<close> and \<open>generatorMessage\<close> are the constants of the module. \<open>siteMeta\<close> is
  the local array of that name as it stands before the last \<open>concat\<close>.
\<close>

definition siteMeta :: "meta \<Rightarrow> date \<Rightarrow> jsval list" where
  "siteMeta m now =
     (let s0 = [JObj [(''title'', title m)],
                JObj [(''description'', description m)],
                JObj [(''link'', link m)],
                JObj [(''lastBuildDate'', JStr (format now))],
                JObj [(''docs'', with_default (docs m) (JStr docsUrl))],
                JObj [(''copyright'',
                       if truthy (copyright m) then copyright m else JNum (getFullYear now))],
                JObj [(''generator'', with_default (generator m) (JStr generatorMessage))]];
          s1 = (if truthy (opt m) then array_concat s0 (opt m) else s0)
      in if truthy (image_meta m)
         then array_concat s1 (formatImageTag (js_prop (image_meta m) ''url'') (link m) (title m))
         else s1)"

definition feedMetaTags :: "meta \<Rightarrow> date \<Rightarrow> jsval list \<Rightarrow> js_error + jsval list" where
  "feedMetaTags m now grp =
     (if \<not> truthy (title m) \<or> \<not> truthy (description m) \<or> \<not> truthy (link m)
      then Inl (Error requiredMessage)
      else
        (case (if truthy (with_default (elevateChannelCategories m) (JBool True))
               then elevateCategory grp
               else Inr [])
         of
           Inl e \<Rightarrow> Inl e
         | Inr channelCats \<Rightarrow> Inr (siteMeta m now @ channelCats @ grp)))"

section \<open>The envelope wrapper\<close>

text \<open>
  \<^verbatim>\<open>
  function cleanNullValues(obj) {
    for (let propName in obj) {
      if (!obj[propName]) {
        delete obj[propName];
      }
    }
    return obj;
  }
  \<close>
\<close>

definition cleanNullValues :: "(string \<times> jsval) list \<Rightarrow> (string \<times> jsval) list" where
  "cleanNullValues obj = filter (\<lambda>(propName, v). truthy v) obj"

text \<open>
  \<open>Object.assign(target, source)\<close>: each property of the source is written to the
  target in turn; a key the target has keeps its place, a new key goes last.
\<close>

definition object_assign :: "(string \<times> jsval) list \<Rightarrow> (string \<times> jsval) list \<Rightarrow> (string \<times> jsval) list" where
  "object_assign target source = foldl (\<lambda>t (k, v). AList.update k v t) target source"

definition defaultNamespaces :: "(string \<times> jsval) list" where
  "defaultNamespaces =
     [(''version'', JStr ''2.0''),
      (''xmlns:content'', JStr ''http://purl.org/rss/1.0/modules/content/''),
      (''xmlns:mi'', JStr ''http://schemas.ingestion.microsoft.com/common/''),
      (''xmlns:dc'', JStr ''http://purl.org/dc/elements/1.1/''),
      (''xmlns:media'', JStr ''http://search.yahoo.com/mrss/'')]"

text \<open>
  \<^verbatim>\<open>
  function wrapInTopLevel(data, attr = {}) {
    const defaultNamespaces = {
      version: '2.0',
      'xmlns:content': 'http://purl.org/rss/1.0/modules/content/',
      'xmlns:mi': 'http://schemas.ingestion.microsoft.com/common/',
      'xmlns:dc': 'http://purl.org/dc/elements/1.1/',
      'xmlns:media': 'http://search.yahoo.com/mrss/'
    };
    return {
      rss: [
        { _attr: cleanNullValues(Object.assign(defaultNamespaces, attr)) },
        { channel: data }
      ]
    };
  }
  \<close>
  The attribute map is an object when the caller passes one; \<open>None\<close> is the argument
  left out, for which the default \<open>{}\<close> applies.
\<close>

definition wrapInTopLevel :: "jsval list \<Rightarrow> (string \<times> jsval) list option \<Rightarrow> jsval" where
  "wrapInTopLevel data attr =
     JObj [(''rss'',
            JArr [JObj [(''_attr'',
                         JObj (cleanNullValues
                                 (object_assign defaultNamespaces
                                    (case attr of None \<Rightarrow> [] | Some a \<Rightarrow> a))))],
                  JObj [(''channel'', JArr data)]])]"

section \<open>The error responder\<close>

text \<open>
  The response object and the logger are collaborators; what the renderer does to them
  is the list of calls it makes, in order.
\<close>

datatype event =
    ResStatus nat
  | ResJson jsval
  | ResType string
  | ResSend string
  | Log string string js_error

text \<open>
  \<^verbatim>\<open>
  function sendError(res, e, message = e.message) {
    const status = 500;
    res.status(status);
    res.json({ status, message });
    log('error', e.message, { stack: e.stack });
  }
  \<close>
  The last argument of \<open>Log\<close> is the error whose stack is logged.
\<close>

definition sendError :: "js_error \<Rightarrow> event list" where
  "sendError e =
     [ResStatus 500,
      ResJson (JObj [(''status'', JNum 500), (''message'', JStr (message e))]),
      Log ''error'' (message e) e]"

section \<open>The stream pipeline\<close>

text \<open>
  \<open>render\<close> runs its steps through a highland stream and a promise. A highland stream
  carries values and errors in order; the operators used are, as the library documents
  them:
  \<^item> \<open>map(f)\<close> applies \<open>f\<close> to each value; when \<open>f\<close> throws, the thrown error takes the
    value's place in the stream and the stream goes on. Errors pass through.
  \<^item> \<open>collect()\<close> passes errors on as they come and emits one array of all values when
    the source ends.
  \<^item> \<open>errors(f)\<close> calls \<open>f\<close> on each error and removes it from the stream (the
    handler here pushes nothing back); values pass through. What is left is a stream
    of values.
  \<^item> \<open>toPromise(Promise)\<close>, on a stream without errors, resolves with the single
    value of the stream, with undefined when the stream ends without a value, and
    rejects when there is a second value.
\<close>

type_synonym 'a hstream = "(js_error + 'a) list"

definition hl_of_array :: "'a list \<Rightarrow> 'a hstream" where
  "hl_of_array xs = map Inr xs"

definition hl_map :: "('a \<Rightarrow> js_error + 'b) \<Rightarrow> 'a hstream \<Rightarrow> 'b hstream" where
  "hl_map f s = map (\<lambda>x. case x of Inl e \<Rightarrow> Inl e | Inr v \<Rightarrow> f v) s"

fun errors_of :: "'a hstream \<Rightarrow> js_error list" where
  "errors_of [] = []"
| "errors_of (Inl e # s) = e # errors_of s"
| "errors_of (Inr v # s) = errors_of s"

fun values_of :: "'a hstream \<Rightarrow> 'a list" where
  "values_of [] = []"
| "values_of (Inl e # s) = values_of s"
| "values_of (Inr v # s) = v # values_of s"

definition hl_collect :: "'a hstream \<Rightarrow> ('a list) hstream" where
  "hl_collect s = map Inl (errors_of s) @ [Inr (values_of s)]"

definition hl_errors :: "(js_error \<Rightarrow> event list) \<Rightarrow> 'a hstream \<Rightarrow> event list \<times> 'a list" where
  "hl_errors f s = (concat (map f (errors_of s)), values_of s)"

fun hl_toPromise :: "jsval list \<Rightarrow> js_error + jsval" where
  "hl_toPromise [] = Inr JUndefined"
| "hl_toPromise [v] = Inr v"
| "hl_toPromise (v # w # s) =
     Inl (Error ''toPromise called on stream emitting multiple values'')"

section \<open>The render orchestrator\<close>

text \<open>
  \<open>_get(object, 'image.url')\<close> of lodash: undefined for a null or undefined object;
  the property named \<open>image.url\<close> itself when the object has one; otherwise
  \<open>object.image.url\<close>, undefined when \<open>object.image\<close> is null or undefined.
\<close>

definition has_key :: "jsval \<Rightarrow> string \<Rightarrow> bool" where
  "has_key v k = (case v of JObj ps \<Rightarrow> k \<in> set (map fst ps) | _ \<Rightarrow> False)"

definition lodash_get2 :: "jsval \<Rightarrow> string \<Rightarrow> string \<Rightarrow> jsval" where
  "lodash_get2 obj a b =
     (if nullish obj then JUndefined
      else if has_key obj (a @ ''.'' @ b) then js_prop obj (a @ ''.'' @ b)
      else if nullish (js_prop obj a) then JUndefined
      else js_prop (js_prop obj a) b)"

text \<open>
  The first statement of \<open>render\<close>:
  \<^verbatim>\<open>
  if (feed.length) {
    const imageIndex = findIndexOfElementInArray(feed[0], 'image');
    const url = _get(feed[0][imageIndex], 'image.url');
    if (url) meta.image = { url };
  }
  \<close>
  It changes the caller's \<open>meta\<close>; the model returns the object as it is afterwards. A
  throw here leaves \<open>render\<close> before the stream exists.
\<close>

definition hoistImage :: "jsval list list \<Rightarrow> meta \<Rightarrow> js_error + meta" where
  "hoistImage feed m =
     (case feed of
        [] \<Rightarrow> Inr m
      | first # rest \<Rightarrow>
          (case findIndexOfElementInArray first ''image'' of
             Inl e \<Rightarrow> Inl e
           | Inr imageIndex \<Rightarrow>
               let url = lodash_get2 (array_get first imageIndex) ''image'' ''url''
               in Inr (if truthy url then m\<lparr>image_meta := JObj [(''url'', url)]\<rparr> else m)))"

text \<open>
  \<^verbatim>\<open>
  function render({ feed, meta, attr }, info, res) {
    if (feed.length) {
      const imageIndex = findIndexOfElementInArray(feed[0], 'image');
      const url = _get(feed[0][imageIndex], 'image.url');
      if (url) meta.image = { url };
    }
    return h(feed)
      .map(wrapInItem)
      .collect()
      .map(feedMetaTags(meta))
      .map(data => wrapInTopLevel(data, attr))
      .errors(e => sendError(res, e))
      .toPromise(Promise)
      .then(data => {
        if (!data) {
          throw new Error('No data sent to XML renderer, cannot respond');
        }
        res.type('text/rss+xml');
        res.send(xml(data, { declaration: true, indent: '\t' }));
      })
      .catch(e => sendError(res, e));
  }
  \<close>
  The result of a call is either an error thrown before the promise exists (\<open>Inl\<close>), or
  the state when the promise has settled: the calls made on \<open>res\<close> and on the logger,
  and the caller's \<open>meta\<close> and feed arrays as the call leaves them. The arrays of a feed
  are taken to be distinct objects. \<open>info\<close> is not used. \<open>xml\<close> is the serializer, a
  parameter; a rejection of the promise goes to \<open>catch\<close>.
\<close>

record outcome =
  events :: "event list"
  meta_after :: meta
  feed_after :: "jsval list list"

definition noDataMessage :: string where
  "noDataMessage = ''No data sent to XML renderer, cannot respond''"

text \<open>The stream up to and including \<open>.map(data => wrapInTopLevel(data, attr))\<close>.\<close>

definition pipeline :: "jsval list list \<Rightarrow> meta \<Rightarrow> (string \<times> jsval) list option \<Rightarrow> date \<Rightarrow> jsval hstream" where
  "pipeline feed m attr now =
     hl_map (\<lambda>data. Inr (wrapInTopLevel data attr))
       (hl_map (feedMetaTags m now)
          (hl_collect
             (hl_map (\<lambda>entry. map_sum id snd (wrapInItem entry)) (hl_of_array feed))))"

text \<open>What \<open>wrapInItem\<close> leaves of the caller's arrays: a call that throws changes nothing.\<close>

definition spliced :: "jsval list \<Rightarrow> jsval list" where
  "spliced entry = (case wrapInItem entry of Inl e \<Rightarrow> entry | Inr (entry', node) \<Rightarrow> entry')"

definition render :: "jsval list list \<Rightarrow> meta \<Rightarrow> (string \<times> jsval) list option \<Rightarrow> date \<Rightarrow> (jsval \<Rightarrow> string) \<Rightarrow> js_error + outcome" where
  "render feed m attr now xml =
     (case hoistImage feed m of
        Inl e \<Rightarrow> Inl e
      | Inr m' \<Rightarrow>
          let (handled, s) = hl_errors sendError (pipeline feed m' attr now);
              settled =
                (case hl_toPromise s of
                   Inl e \<Rightarrow> sendError e
                 | Inr data \<Rightarrow>
                     if \<not> truthy data then sendError (Error noDataMessage)
                     else [ResType ''text/rss+xml'', ResSend (xml data)])
          in Inr \<lparr>events = handled @ settled, meta_after = m', feed_after = map spliced feed\<rparr>)"

section \<open>Vocabulary for the properties\<close>

text \<open>An entry that the scan for \<open>image\<close> stops at: its \<open>image\<close> property is truthy.\<close>

definition has_image :: "jsval \<Rightarrow> bool" where
  "has_image e = truthy (js_prop e ''image'')"

text \<open>A list without the first element that satisfies a predicate, if there is one.\<close>

fun without_first :: "('a \<Rightarrow> bool) \<Rightarrow> 'a list \<Rightarrow> 'a list" where
  "without_first P [] = []"
| "without_first P (x # xs) = (if P x then xs else x # without_first P xs)"

definition item_node :: "jsval list \<Rightarrow> jsval" where
  "item_node entry = JObj [(''item'', JArr entry)]"

definition category_tag :: "string \<Rightarrow> jsval" where
  "category_tag s = JObj [(''category'', JStr s)]"

text \<open>The comma-joined truthy categories of one item, in the item's order.\<close>

definition joined_categories :: "jsval list \<Rightarrow> string" where
  "joined_categories item =
     array_join
       (map (\<lambda>entry. js_prop entry ''category'')
          (filter (\<lambda>entry. truthy entry \<and> truthy (js_prop entry ''category'')) item))
       '',''"

text \<open>The url that the first statement of \<open>render\<close> reads off the first feed item.\<close>

definition first_image_url :: "jsval list \<Rightarrow> jsval" where
  "first_image_url first =
     (case find has_image first of
        None \<Rightarrow> JUndefined
      | Some e \<Rightarrow> lodash_get2 e ''image'' ''url'')"

text \<open>The three parts of \<open>siteMeta\<close>: the seven fixed tags, \<open>opt\<close>, and the image tag.\<close>

definition base_records :: "meta \<Rightarrow> date \<Rightarrow> jsval list" where
  "base_records m now =
     [JObj [(''title'', title m)],
      JObj [(''description'', description m)],
      JObj [(''link'', link m)],
      JObj [(''lastBuildDate'', JStr (format now))],
      JObj [(''docs'', if docs m = JUndefined then JStr docsUrl else docs m)],
      JObj [(''copyright'', if truthy (copyright m) then copyright m else JNum (getFullYear now))],
      JObj [(''generator'', if generator m = JUndefined then JStr generatorMessage else generator m)]]"

definition opt_records :: "meta \<Rightarrow> jsval list" where
  "opt_records m = (if truthy (opt m) then array_concat [] (opt m) else [])"

definition image_records :: "meta \<Rightarrow> jsval list" where
  "image_records m =
     (if truthy (image_meta m)
      then [JObj [(''image'',
                   JArr [JObj [(''url'', js_prop (image_meta m) ''url'')],
                         JObj [(''link'', link m)],
                         JObj [(''title'', title m)]])]]
      else [])"

definition example_meta :: meta where
  "example_meta =
     \<lparr>title = JStr ''Show'', description = JStr ''D'', link = JStr ''http://x'',
      copyright = JUndefined, generator = JUndefined, docs = JUndefined, opt = JUndefined,
      image_meta = JUndefined, elevateChannelCategories = JUndefined\<rparr>"

definition example_date :: date where
  "example_date = \<lparr>format = ''Mon, 01 Jan 2018 00:00:00 +0000'', getFullYear = 2018\<rparr>"

definition example_feed :: "jsval list list" where
  "example_feed =
     [[JObj [(''title'', JStr ''Ep1'')], JObj [(''category'', JStr ''News'')]],
      [JObj [(''title'', JStr ''Ep2'')], JObj [(''category'', JStr ''Tech'')]]]"

definition two_image_feed :: "jsval list list" where
  "two_image_feed =
     [[JObj [(''title'', JStr ''Ep1'')],
       JObj [(''image'', JObj [(''url'', JStr ''http://x/a.png''), (''title'', JStr ''A'')])]],
      [JObj [(''image'', JObj [(''url'', JStr ''http://x/b.png'')])],
       JObj [(''title'', JStr ''Ep2'')]]]"

definition two_image_tree :: jsval where
  "two_image_tree =
     JObj [(''rss'',
        JArr [JObj [(''_attr'', JObj defaultNamespaces)],
              JObj [(''channel'',
                JArr [JObj [(''title'', JStr ''Show'')],
                      JObj [(''description'', JStr ''D'')],
                      JObj [(''link'', JStr ''http://x'')],
                      JObj [(''lastBuildDate'', JStr ''Mon, 01 Jan 2018 00:00:00 +0000'')],
                      JObj [(''docs'', JStr ''http://blogs.law.harvard.edu/tech/rss'')],
                      JObj [(''copyright'', JNum 2018)],
                      JObj [(''generator'', JStr ''Feed delivered by Clay'')],
                      JObj [(''image'', JArr [JObj [(''url'', JStr ''http://x/a.png'')],
                                              JObj [(''link'', JStr ''http://x'')],
                                              JObj [(''title'', JStr ''Show'')]])],
                      JObj [(''item'', JArr [JObj [(''title'', JStr ''Ep1'')]])],
                      JObj [(''item'', JArr [JObj [(''title'', JStr ''Ep2'')]])]])]])]"

section \<open>Earlier revisions\<close>

text \<open>
  The sources hold two more revisions of the renderer. The definitions above follow the
  current one (the second text of \<open>index.js\<close>, from line 218). Where an earlier revision
  differs in a function that a property below is about, it is modelled here under its
  own name: \<open>_prev\<close> for the first text of \<open>index.js\<close> (lines 1 to 216),
  \<open>_podcast\<close> for the revision with the iTunes tags (\<open>unnamed/part_000\<close>).
\<close>

text \<open>
  The previous revision splices whatever index the scan returns:
  \<^verbatim>\<open>
  function wrapInItem(entry) {
    if (entry.length) {
      let imageIndex = findIndexOfElementInArray(entry, 'image');
      entry.splice(imageIndex, 1);
    }
    return { item: entry };
  }
  \<close>
\<close>

definition wrapInItem_prev :: "jsval list \<Rightarrow> js_error + (jsval list \<times> jsval)" where
  "wrapInItem_prev entry =
     (if entry \<noteq> [] then
        (case findIndexOfElementInArray entry ''image'' of
           Inl e \<Rightarrow> Inl e
         | Inr imageIndex \<Rightarrow>
             let entry' = splice1 imageIndex entry
             in Inr (entry', JObj [(''item'', JArr entry')]))
      else Inr (entry, JObj [(''item'', JArr entry)]))"

text \<open>
  Its first statement of \<open>render\<close> reads \<open>.image\<close> off the element before the null-safe
  \<open>_get\<close>:
  \<^verbatim>\<open>
  if (feed.length) {
    let imageIndex = findIndexOfElementInArray(feed[0], 'image'),
      url = _get(feed[0][imageIndex].image, 'url');
    if (url) {
      meta.image = { url, };
    }
  }
  \<close>
\<close>

definition lodash_get1 :: "jsval \<Rightarrow> string \<Rightarrow> jsval" where
  "lodash_get1 obj a = (if nullish obj then JUndefined else js_prop obj a)"

definition hoistImage_prev :: "jsval list list \<Rightarrow> meta \<Rightarrow> js_error + meta" where
  "hoistImage_prev feed m =
     (case feed of
        [] \<Rightarrow> Inr m
      | first # rest \<Rightarrow>
          (case findIndexOfElementInArray first ''image'' of
             Inl e \<Rightarrow> Inl e
           | Inr imageIndex \<Rightarrow>
               (case getProp (array_get first imageIndex) ''image'' of
                  Inl e \<Rightarrow> Inl e
                | Inr img \<Rightarrow>
                    let url = lodash_get1 img ''url''
                    in Inr (if truthy url then m\<lparr>image_meta := JObj [(''url'', url)]\<rparr> else m))))"

text \<open>
  Its metadata assembler has no category toggle and defaults \<open>docs\<close> and \<open>generator\<close> by
  truthiness:
  \<^verbatim>\<open>
  siteMeta = [
    { title }, { description }, { link },
    { lastBuildDate: format(now, 'ddd, DD MMM YYYY HH:mm:ss ZZ') },
    { docs: docs || 'http://blogs.law.harvard.edu/tech/rss' },
    { copyright: copyright || now.getFullYear() },
    { generator: generator || 'Feed delivered by Clay' }
  ];
  if (opt) { siteMeta = siteMeta.concat(opt); }
  if (image) { siteMeta = siteMeta.concat(formatImageTag(image.url, link, title)); }
  return siteMeta.concat(elevateCategory(group), group);
  \<close>
\<close>

definition siteMeta_prev :: "meta \<Rightarrow> date \<Rightarrow> jsval list" where
  "siteMeta_prev m now =
     (let s0 = [JObj [(''title'', title m)],
                JObj [(''description'', description m)],
                JObj [(''link'', link m)],
                JObj [(''lastBuildDate'', JStr (format now))],
                JObj [(''docs'', if truthy (docs m) then docs m else JStr docsUrl)],
                JObj [(''copyright'',
                       if truthy (copyright m) then copyright m else JNum (getFullYear now))],
                JObj [(''generator'',
                       if truthy (generator m) then generator m else JStr generatorMessage)]];
          s1 = (if truthy (opt m) then array_concat s0 (opt m) else s0)
      in if truthy (image_meta m)
         then array_concat s1 (formatImageTag (js_prop (image_meta m) ''url'') (link m) (title m))
         else s1)"

definition feedMetaTags_prev :: "meta \<Rightarrow> date \<Rightarrow> jsval list \<Rightarrow> js_error + jsval list" where
  "feedMetaTags_prev m now grp =
     (if \<not> truthy (title m) \<or> \<not> truthy (description m) \<or> \<not> truthy (link m)
      then Inl (Error requiredMessage)
      else
        (case elevateCategory grp of
           Inl e \<Rightarrow> Inl e
         | Inr channelCats \<Rightarrow> Inr (siteMeta_prev m now @ channelCats @ grp)))"

text \<open>
  It wraps an entry as it is, and its attribute cleaner returns nothing:
  \<^verbatim>\<open>
  function wrapInItem(entry) {
    return { item: entry };
  }
  function cleanNullValues(obj) {
    for (var propName in obj) {
      if (obj[propName] === null || obj[propName] === undefined || obj[propName] === '') {
        delete obj[propName];
      }
    }
  }
  function wrapInTopLevel(data, attr) {
    var combinedNamespaces, filteredNamespaces;
    const defaultAttr = { version: '2.0' },
    defaultNamespaces = {
      'xmlns:content': 'http://purl.org/rss/1.0/modules/content/',
      'xmlns:mi': 'http://schemas.ingestion.microsoft.com/common/',
      'xmlns:dc': 'http://purl.org/dc/elements/1.1/',
      'xmlns:media': 'http://search.yahoo.com/mrss/'
    }
    combinedNamespaces = {...defaultNamespaces, ...attr};
    filteredNamespaces = cleanNullValues(combinedNamespaces);
    return {
      rss: [{ _attr: Object.assign(defaultAttr, filteredNamespaces) }, { channel: data }]
    };
  }
  \<close>
  \<open>cleanNullValues_podcast\<close> gives the object as the loop leaves it and the value
  returned, which is undefined; \<open>Object.assign\<close> skips a source that is undefined.
\<close>

text \<open>
  The podcast revision's assembler puts the iTunes tags after the seven fixed ones:
  \<^verbatim>\<open>
  function contactInfo(name, email) {
    return [ { 'itunes:name': name }, { 'itunes:email': email } ];
  }
  siteMeta = [
    { title }, { description }, { link },
    { lastBuildDate: format(now, 'ddd, DD MMM YYYY HH:mm:ss ZZ') },
    { docs: docs || 'http://blogs.law.harvard.edu/tech/rss' },
    { copyright: copyright || now.getFullYear() },
    { generator: generator || 'Feed delivered by Clay' },
    { language: 'en-us' },
    { 'itunes:subtitle': description },
    { 'itunes:author': title },
    { 'itunes:summary': description },
    { 'itunes:type': 'episodic' },
    { 'itunes:owner': contactInfo(title, 'neil.janowitz@vulture.com') },
    { 'itunes:image': 'http://pixel.nymag.com/imgs/daily/vulture/2018/08/21/Vulture3000x3000.jpg' },
    { 'itunes:category': [{ _attr: { text: 'Entertainment'} }]},
    { 'itunes:explicit': 'no' }
  ];
  if (opt) { siteMeta = siteMeta.concat(opt); }
  return siteMeta.concat(elevateCategory(group), group);
  \<close>
\<close>

definition contactInfo :: "jsval \<Rightarrow> jsval \<Rightarrow> jsval" where
  "contactInfo name email = JArr [JObj [(''itunes:name'', name)], JObj [(''itunes:email'', email)]]"

definition siteMeta_podcast :: "meta \<Rightarrow> date \<Rightarrow> jsval list" where
  "siteMeta_podcast m now =
     (let s0 = [JObj [(''title'', title m)],
                JObj [(''description'', description m)],
                JObj [(''link'', link m)],
                JObj [(''lastBuildDate'', JStr (format now))],
                JObj [(''docs'', if truthy (docs m) then docs m else JStr docsUrl)],
                JObj [(''copyright'',
                       if truthy (copyright m) then copyright m else JNum (getFullYear now))],
                JObj [(''generator'',
                       if truthy (generator m) then generator m else JStr generatorMessage)],
                JObj [(''language'', JStr ''en-us'')],
                JObj [(''itunes:subtitle'', description m)],
                JObj [(''itunes:author'', title m)],
                JObj [(''itunes:summary'', description m)],
                JObj [(''itunes:type'', JStr ''episodic'')],
                JObj [(''itunes:owner'', contactInfo (title m) (JStr ''neil.janowitz@vulture.com''))],
                JObj [(''itunes:image'',
                       JStr ''http://pixel.nymag.com/imgs/daily/vulture/2018/08/21/Vulture3000x3000.jpg'')],
                JObj [(''itunes:category'', JArr [JObj [(''_attr'', JObj [(''text'', JStr ''Entertainment'')])]])],
                JObj [(''itunes:explicit'', JStr ''no'')]]
      in if truthy (opt m) then array_concat s0 (opt m) else s0)"

definition feedMetaTags_podcast :: "meta \<Rightarrow> date \<Rightarrow> jsval list \<Rightarrow> js_error + jsval list" where
  "feedMetaTags_podcast m now grp =
     (if \<not> truthy (title m) \<or> \<not> truthy (description m) \<or> \<not> truthy (link m)
      then Inl (Error requiredMessage)
      else
        (case elevateCategory grp of
           Inl e \<Rightarrow> Inl e
         | Inr channelCats \<Rightarrow> Inr (siteMeta_podcast m now @ channelCats @ grp)))"

definition wrapInItem_podcast :: "jsval list \<Rightarrow> jsval" where
  "wrapInItem_podcast entry = JObj [(''item'', JArr entry)]"

definition cleanNullValues_podcast :: "(string \<times> jsval) list \<Rightarrow> (string \<times> jsval) list \<times> jsval" where
  "cleanNullValues_podcast obj =
     (filter (\<lambda>(propName, v). \<not> (v = JNull \<or> v = JUndefined \<or> v = JStr [])) obj, JUndefined)"

definition object_assign_value :: "(string \<times> jsval) list \<Rightarrow> jsval \<Rightarrow> (string \<times> jsval) list" where
  "object_assign_value target source =
     (case source of JObj ps \<Rightarrow> object_assign target ps | _ \<Rightarrow> target)"

definition defaultNamespaces_podcast :: "(string \<times> jsval) list" where
  "defaultNamespaces_podcast =
     [(''xmlns:content'', JStr ''http://purl.org/rss/1.0/modules/content/''),
      (''xmlns:mi'', JStr ''http://schemas.ingestion.microsoft.com/common/''),
      (''xmlns:dc'', JStr ''http://purl.org/dc/elements/1.1/''),
      (''xmlns:media'', JStr ''http://search.yahoo.com/mrss/'')]"

definition wrapInTopLevel_podcast :: "jsval list \<Rightarrow> (string \<times> jsval) list option \<Rightarrow> jsval" where
  "wrapInTopLevel_podcast data attr =
     (let defaultAttr = [(''version'', JStr ''2.0'')];
          combinedNamespaces =
            object_assign (object_assign [] defaultNamespaces_podcast)
              (case attr of None \<Rightarrow> [] | Some a \<Rightarrow> a);
          filteredNamespaces = snd (cleanNullValues_podcast combinedNamespaces)
      in JObj [(''rss'',
                JArr [JObj [(''_attr'', JObj (object_assign_value defaultAttr filteredNamespaces))],
                      JObj [(''channel'', JArr data)]])])"

section \<open>Lemmas about the steps\<close>

lemma getProp_ok: "\<not> nullish v \<Longrightarrow> getProp v k = Inr (js_prop v k)"
  by (simp add: getProp_def)

lemma js_prop_nullish: "nullish v \<Longrightarrow> js_prop v k = JUndefined"
  by (auto simp: nullish_def)

lemma truthy_prop_not_nullish: "truthy (js_prop v k) \<Longrightarrow> \<not> nullish v"
  using js_prop_nullish by fastforce

lemma findIndex_range:
  "findIndexOfElementInArray xs k = Inr i \<Longrightarrow> - 1 \<le> i \<and> i < int (length xs)"
proof (induction xs arbitrary: i)
  case Nil
  then show ?case by simp
next
  case (Cons a xs)
  show ?case
  proof (cases "getProp a k")
    case (Inl e)
    with Cons.prems show ?thesis by simp
  next
    case (Inr v)
    show ?thesis
    proof (cases "truthy v")
      case True
      with Inr Cons.prems show ?thesis by simp
    next
      case False
      with Inr Cons.prems obtain j where j: "findIndexOfElementInArray xs k = Inr j"
        and i: "i = (if j = - 1 then - 1 else j + 1)"
        by (auto split: sum.splits if_splits)
      from Cons.IH[OF j] i show ?thesis by auto
    qed
  qed
qed

lemma findIndex_none:
  "\<forall>x\<in>set xs. \<not> nullish x \<and> \<not> truthy (js_prop x k) \<Longrightarrow> findIndexOfElementInArray xs k = Inr (- 1)"
  by (induction xs) (auto simp: getProp_ok)

lemma findIndex_first:
  assumes "\<forall>p\<in>set pre. \<not> nullish p \<and> \<not> truthy (js_prop p k)" and "truthy (js_prop x k)"
  shows "findIndexOfElementInArray (pre @ x # post) k = Inr (int (length pre))"
  using assms
proof (induction pre)
  case Nil
  then show ?case by (simp add: getProp_ok truthy_prop_not_nullish)
next
  case (Cons p pre)
  then show ?case by (simp add: getProp_ok)
qed

lemma findIndex_throws:
  assumes "\<forall>p\<in>set pre. \<not> nullish p \<and> \<not> truthy (js_prop p k)" and "nullish x"
  shows "findIndexOfElementInArray (pre @ x # post) k =
           Inl (TypeError (''Cannot read property '' @ quoted k @ '' of '' @ nullish_name x))"
  using assms
  by (induction pre) (simp_all add: getProp_ok, simp add: getProp_def)

lemma splice1_at: "splice1 (int (length pre)) (pre @ x # post) = pre @ post"
  by (simp add: splice1_def Let_def)

lemma wrapInItem_found:
  assumes "\<forall>p\<in>set pre. \<not> nullish p \<and> \<not> has_image p" and "has_image x"
  shows "wrapInItem (pre @ x # post) = Inr (pre @ post, item_node (pre @ post))"
  using assms findIndex_first[of pre "''image''" x post]
  by (simp add: wrapInItem_def has_image_def splice1_at item_node_def Let_def)

lemma wrapInItem_none:
  assumes "\<forall>e\<in>set entry. \<not> nullish e \<and> \<not> has_image e"
  shows "wrapInItem entry = Inr (entry, item_node entry)"
  using assms findIndex_none[of entry "''image''"]
  by (simp add: wrapInItem_def has_image_def item_node_def Let_def)

lemma wrapInItem_throws:
  assumes "\<forall>p\<in>set pre. \<not> nullish p \<and> \<not> has_image p" and "nullish x"
  shows "wrapInItem (pre @ x # post) = Inl (TypeError (''Cannot read property '' @ quoted ''image'' @ '' of '' @ nullish_name x))"
  using assms findIndex_throws[of pre "''image''" x post]
  by (simp add: wrapInItem_def has_image_def)

lemma wrapInItem_without_first:
  assumes "\<forall>e\<in>set entry. \<not> nullish e"
  shows "wrapInItem entry = Inr (without_first has_image entry, item_node (without_first has_image entry))"
proof (cases "\<exists>e\<in>set entry. has_image e")
  case False
  then have "without_first has_image entry = entry" by (induction entry) auto
  then show ?thesis using wrapInItem_none[of entry] assms False by simp
next
  case True
  then obtain pre x post where e: "entry = pre @ x # post" "has_image x" "\<forall>p\<in>set pre. \<not> has_image p"
    by (auto simp: split_list_first_prop_iff)
  then have "without_first has_image entry = pre @ post" by (induction pre arbitrary: entry) auto
  then show ?thesis using wrapInItem_found[of pre x post] assms e by simp
qed


lemma itemCategories_node: "itemCategories (item_node item) = Inr (joined_categories item)"
  by (simp add: itemCategories_def item_node_def joined_categories_def nullish_def)

lemma array_map_nodes:
  "array_map itemCategories (map item_node items) = Inr (map joined_categories items)"
  by (induction items) (simp_all add: itemCategories_node)

lemma elevateCategory_nodes:
  "elevateCategory (map item_node items) =
     Inr (map category_tag (filter (\<lambda>s. s \<noteq> []) (map joined_categories items)))"
  by (simp add: elevateCategory_def array_map_nodes category_tag_def)

lemma array_concat_Nil: "array_concat xs v = xs @ array_concat [] v"
  by (cases v) simp_all

lemma siteMeta_parts: "siteMeta m now = base_records m now @ opt_records m @ image_records m"
  using array_concat_Nil[of "base_records m now" "opt m"]
  by (simp add: siteMeta_def base_records_def opt_records_def image_records_def Let_def
      with_default_def formatImageTag_def)

lemma length_base_records: "length (base_records m now) = 7"
  by (simp add: base_records_def)

lemma feedMetaTags_invalid:
  "\<not> truthy (title m) \<or> \<not> truthy (description m) \<or> \<not> truthy (link m) \<Longrightarrow>
     feedMetaTags m now grp = Inl (Error requiredMessage)"
  by (simp add: feedMetaTags_def)

lemma feedMetaTags_nodes:
  assumes "truthy (title m)" "truthy (description m)" "truthy (link m)"
  shows "feedMetaTags m now (map item_node items) =
           Inr (siteMeta m now
                @ (if truthy (with_default (elevateChannelCategories m) (JBool True))
                   then map category_tag (filter (\<lambda>s. s \<noteq> []) (map joined_categories items))
                   else [])
                @ map item_node items)"
  using assms by (simp add: feedMetaTags_def elevateCategory_nodes)

lemma feedMetaTags_Inr:
  assumes "feedMetaTags m now grp = Inr ch"
  shows "truthy (title m) \<and> truthy (description m) \<and> truthy (link m) \<and>
         (\<exists>cats. ch = siteMeta m now @ cats @ grp)"
  using assms by (auto simp: feedMetaTags_def split: if_splits sum.splits)

lemma array_get_find:
  "findIndexOfElementInArray xs ''image'' = Inr i \<Longrightarrow>
     array_get xs i = (case find has_image xs of None \<Rightarrow> JUndefined | Some e \<Rightarrow> e)"
proof (induction xs arbitrary: i)
  case Nil
  then show ?case by (simp add: array_get_def)
next
  case (Cons a xs)
  show ?case
  proof (cases "has_image a")
    case True
    then have "\<not> nullish a" by (simp add: has_image_def truthy_prop_not_nullish)
    with True Cons.prems show ?thesis by (auto simp: getProp_ok has_image_def array_get_def)
  next
    case False
    with Cons.prems have nn: "\<not> nullish a"
      by (auto simp: getProp_def split: if_splits)
    with False Cons.prems obtain j where j: "findIndexOfElementInArray xs ''image'' = Inr j"
      and i: "i = (if j = - 1 then - 1 else j + 1)"
      by (auto simp: getProp_ok has_image_def split: sum.splits if_splits)
    from findIndex_range[OF j] have r: "- 1 \<le> j" "j < int (length xs)" by auto
    have "array_get (a # xs) i = array_get xs j"
    proof (cases "j = - 1")
      case True
      with i show ?thesis by (simp add: array_get_def)
    next
      case False
      with r have "0 \<le> j" by simp
      with i False r show ?thesis by (simp add: array_get_def nat_add_distrib)
    qed
    with Cons.IH[OF j] False show ?thesis by simp
  qed
qed

lemma lodash_get2_undefined: "lodash_get2 JUndefined a b = JUndefined"
  by (simp add: lodash_get2_def nullish_def)

lemma hoistImage_Inr:
  assumes "hoistImage feed m = Inr m'"
  shows "m' = (if feed \<noteq> [] \<and> truthy (first_image_url (hd feed))
               then m\<lparr>image_meta := JObj [(''url'', first_image_url (hd feed))]\<rparr> else m)"
proof (cases feed)
  case Nil
  with assms show ?thesis by (simp add: hoistImage_def)
next
  case (Cons first rest)
  with assms obtain i where i: "findIndexOfElementInArray first ''image'' = Inr i"
    by (auto simp: hoistImage_def split: sum.splits)
  have "lodash_get2 (array_get first i) ''image'' ''url'' = first_image_url first"
    using array_get_find[OF i]
    by (simp add: first_image_url_def lodash_get2_undefined split: option.splits)
  with assms Cons i show ?thesis by (auto simp: hoistImage_def Let_def)
qed

lemma findIndex_total:
  "\<forall>e\<in>set xs. \<not> nullish e \<Longrightarrow> \<exists>i. findIndexOfElementInArray xs k = Inr i"
  by (induction xs) (auto simp: getProp_ok)

lemma hoistImage_wf:
  assumes "\<forall>item\<in>set feed. \<forall>e\<in>set item. \<not> nullish e"
  shows "\<exists>m'. hoistImage feed m = Inr m'"
proof (cases feed)
  case Nil
  then show ?thesis by (simp add: hoistImage_def)
next
  case (Cons first rest)
  with assms have "\<forall>e\<in>set first. \<not> nullish e" by simp
  from findIndex_total[OF this] obtain i where "findIndexOfElementInArray first ''image'' = Inr i"
    by blast
  with Cons show ?thesis by (simp add: hoistImage_def Let_def)
qed

lemma wrapped_stream_wf:
  assumes "\<forall>item\<in>set feed. \<forall>e\<in>set item. \<not> nullish e"
  shows "hl_map (\<lambda>entry. map_sum id snd (wrapInItem entry)) (hl_of_array feed) =
           map (\<lambda>item. Inr (item_node (without_first has_image item))) feed"
  using assms by (simp add: hl_map_def hl_of_array_def wrapInItem_without_first)

lemma errors_of_Inr: "errors_of (map (\<lambda>x. Inr (f x)) xs) = []"
  by (induction xs) simp_all

lemma values_of_Inr: "values_of (map (\<lambda>x. Inr (f x)) xs) = map f xs"
  by (induction xs) simp_all

lemma collected_wf:
  assumes "\<forall>item\<in>set feed. \<forall>e\<in>set item. \<not> nullish e"
  shows "hl_collect (hl_map (\<lambda>entry. map_sum id snd (wrapInItem entry)) (hl_of_array feed)) =
           [Inr (map item_node (map (without_first has_image) feed))]"
  using wrapped_stream_wf[OF assms]
    errors_of_Inr[of "\<lambda>item. item_node (without_first has_image item)" feed]
    values_of_Inr[of "\<lambda>item. item_node (without_first has_image item)" feed]
  by (simp add: hl_collect_def comp_def)

lemma pipeline_wf:
  assumes "\<forall>item\<in>set feed. \<forall>e\<in>set item. \<not> nullish e"
  shows "pipeline feed m attr now =
           [case feedMetaTags m now (map item_node (map (without_first has_image) feed)) of
              Inl e \<Rightarrow> Inl e
            | Inr data \<Rightarrow> Inr (wrapInTopLevel data attr)]"
  using collected_wf[OF assms] by (simp add: pipeline_def hl_map_def split: sum.splits)

lemma spliced_wf:
  assumes "\<forall>e\<in>set item. \<not> nullish e"
  shows "spliced item = without_first has_image item"
  using wrapInItem_without_first[OF assms] by (simp add: spliced_def)

lemma truthy_wrapInTopLevel: "truthy (wrapInTopLevel data attr)"
  by (simp add: wrapInTopLevel_def)

lemma render_wf_valid:
  assumes wf: "\<forall>item\<in>set feed. \<forall>e\<in>set item. \<not> nullish e"
    and hoist: "hoistImage feed m = Inr m'"
    and valid: "truthy (title m)" "truthy (description m)" "truthy (link m)"
  shows "render feed m attr now xml =
           Inr \<lparr>events =
                  [ResType ''text/rss+xml'',
                   ResSend (xml (wrapInTopLevel
                     (siteMeta m' now
                      @ (if truthy (with_default (elevateChannelCategories m) (JBool True))
                         then map category_tag (filter (\<lambda>s. s \<noteq> [])
                                (map joined_categories (map (without_first has_image) feed)))
                         else [])
                      @ map item_node (map (without_first has_image) feed)) attr))],
                meta_after = m',
                feed_after = map (without_first has_image) feed\<rparr>"
proof -
  have m': "title m' = title m" "description m' = description m" "link m' = link m"
    "elevateChannelCategories m' = elevateChannelCategories m"
    using hoistImage_Inr[OF hoist] by (simp_all split: if_splits)
  have sp: "map spliced feed = map (without_first has_image) feed"
    using wf by (simp add: spliced_wf)
  show ?thesis
    using valid m' feedMetaTags_nodes[of m' now "map (without_first has_image) feed"]
    by (simp add: render_def hoist pipeline_wf[OF wf] hl_errors_def sp truthy_wrapInTopLevel)
qed

lemma render_wf_invalid:
  assumes wf: "\<forall>item\<in>set feed. \<forall>e\<in>set item. \<not> nullish e"
    and hoist: "hoistImage feed m = Inr m'"
    and invalid: "\<not> truthy (title m) \<or> \<not> truthy (description m) \<or> \<not> truthy (link m)"
  shows "render feed m attr now xml =
           Inr \<lparr>events = sendError (Error requiredMessage) @ sendError (Error noDataMessage),
                meta_after = m',
                feed_after = map (without_first has_image) feed\<rparr>"
proof -
  have m': "title m' = title m" "description m' = description m" "link m' = link m"
    using hoistImage_Inr[OF hoist] by (simp_all split: if_splits)
  have sp: "map spliced feed = map (without_first has_image) feed"
    using wf by (simp add: spliced_wf)
  have "feedMetaTags m' now (map item_node (map (without_first has_image) feed)) = Inl (Error requiredMessage)"
    using invalid m' by (simp add: feedMetaTags_invalid)
  then show ?thesis
    by (simp add: render_def hoist pipeline_wf[OF wf] hl_errors_def sp)
qed

lemma object_assign_Cons:
  "object_assign t ((k, v) # s) = object_assign (AList.update k v t) s"
  by (simp add: object_assign_def)

lemma object_assign_lookup:
  "distinct (map fst s) \<Longrightarrow>
     map_of (object_assign t s) k = (case map_of s k of Some v \<Rightarrow> Some v | None \<Rightarrow> map_of t k)"
proof (induction s arbitrary: t)
  case Nil
  then show ?case by (simp add: object_assign_def)
next
  case (Cons p s)
  obtain k' v where p: "p = (k', v)" by (cases p)
  from Cons.prems p have d: "distinct (map fst s)" and n: "k' \<notin> fst ` set s" by auto
  from n have none: "map_of s k' = None" by (simp add: map_of_eq_None_iff)
  show ?case
    using Cons.IH[OF d, of "AList.update k' v t"] none
    by (auto simp: p object_assign_Cons update_conv' split: option.splits)
qed

lemma distinct_object_assign:
  "distinct (map fst t) \<Longrightarrow> distinct (map fst (object_assign t s))"
proof (induction s arbitrary: t)
  case Nil
  then show ?case by (simp add: object_assign_def)
next
  case (Cons p s)
  obtain k v where p: "p = (k, v)" by (cases p)
  from Cons.prems have "distinct (map fst (AList.update k v t))" by (rule distinct_update)
  from Cons.IH[OF this] show ?case by (simp add: p object_assign_Cons)
qed

lemma cleanNullValues_lookup:
  "distinct (map fst obj) \<Longrightarrow>
     map_of (cleanNullValues obj) k =
       (case map_of obj k of None \<Rightarrow> None | Some v \<Rightarrow> if truthy v then Some v else None)"
proof (induction obj)
  case Nil
  then show ?case by (simp add: cleanNullValues_def)
next
  case (Cons p obj)
  obtain k' v where p: "p = (k', v)" by (cases p)
  from Cons.prems p have d: "distinct (map fst obj)" and n: "k' \<notin> fst ` set obj" by auto
  from n have none: "map_of obj k' = None" by (simp add: map_of_eq_None_iff)
  have c: "cleanNullValues ((k', v) # obj) =
      (if truthy v then (k', v) # cleanNullValues obj else cleanNullValues obj)"
    by (simp add: cleanNullValues_def)
  show ?case using Cons.IH[OF d] none by (auto simp: c p)
qed

lemma distinct_cleanNullValues:
  "distinct (map fst obj) \<Longrightarrow> distinct (map fst (cleanNullValues obj))"
  by (simp add: cleanNullValues_def distinct_map_filter)

lemma distinct_defaultNamespaces: "distinct (map fst defaultNamespaces)"
  by (simp add: defaultNamespaces_def)

lemma filter_without_first: "filter P (without_first P xs) = tl (filter P xs)"
  by (induction xs) auto

lemma without_first_none: "\<not> list_ex P xs \<Longrightarrow> without_first P xs = xs"
  by (induction xs) auto

lemma without_first_length: "list_ex P xs \<Longrightarrow> Suc (length (without_first P xs)) = length xs"
  by (induction xs) auto

lemma hoisted_image_records:
  assumes "hoistImage feed m = Inr m'"
  shows "image_records m' =
           (if feed \<noteq> [] \<and> truthy (first_image_url (hd feed))
            then [formatImageTag (first_image_url (hd feed)) (link m) (title m)]
            else image_records m)"
    and "base_records m' now = base_records m now"
    and "opt_records m' = opt_records m"
  using hoistImage_Inr[OF assms]
  by (simp_all add: image_records_def formatImageTag_def base_records_def opt_records_def)

lemma two_image_feed_wf: "\<forall>item\<in>set two_image_feed. \<forall>e\<in>set item. \<not> nullish e"
  by (simp add: two_image_feed_def nullish_def)

lemma example_meta_valid:
  "truthy (title example_meta)" "truthy (description example_meta)" "truthy (link example_meta)"
  by (simp_all add: example_meta_def)

lemma two_image_first_url: "first_image_url (hd two_image_feed) = JStr ''http://x/a.png''"
  by (simp add: two_image_feed_def first_image_url_def has_image_def lodash_get2_def
      nullish_def has_key_def)

lemma two_image_without:
  "map (without_first has_image) two_image_feed =
     [[JObj [(''title'', JStr ''Ep1'')]], [JObj [(''title'', JStr ''Ep2'')]]]"
  by (simp add: two_image_feed_def has_image_def)













section \<open>C1: category elevation\<close>

text \<open>
  C1 as stated fails. The claim is one derived tag-record for the whole feed, holding
  the categories of all items joined by commas. \<open>elevateCategory\<close> joins inside each
  item and emits one tag-record per item, so the feed of the specification's own example
  (two items, categories \<open>News\<close> and \<open>Tech\<close>) renders with two \<open>category\<close> tags and
  not with the one tag \<open>News,Tech\<close>.
\<close>

theorem example_feed_gets_two_category_tags:
  "pipeline example_feed example_meta None example_date =
     [Inr (JObj [(''rss'',
        JArr [JObj [(''_attr'', JObj defaultNamespaces)],
              JObj [(''channel'',
                JArr [JObj [(''title'', JStr ''Show'')],
                      JObj [(''description'', JStr ''D'')],
                      JObj [(''link'', JStr ''http://x'')],
                      JObj [(''lastBuildDate'', JStr ''Mon, 01 Jan 2018 00:00:00 +0000'')],
                      JObj [(''docs'', JStr ''http://blogs.law.harvard.edu/tech/rss'')],
                      JObj [(''copyright'', JNum 2018)],
                      JObj [(''generator'', JStr ''Feed delivered by Clay'')],
                      JObj [(''category'', JStr ''News'')],
                      JObj [(''category'', JStr ''Tech'')],
                      JObj [(''item'', JArr [JObj [(''title'', JStr ''Ep1'')], JObj [(''category'', JStr ''News'')]])],
                      JObj [(''item'', JArr [JObj [(''title'', JStr ''Ep2'')], JObj [(''category'', JStr ''Tech'')]])]])]])])]"
  by code_simp

text \<open>
  C1, amended: for every feed and valid meta with \<open>elevateChannelCategories\<close> truthy
  (true is its default), the channel contains, between the site metadata and the items, one
  derived category tag-record for each item whose truthy \<open>category\<close> values join to a
  non-empty string, in item order; the value is the comma-joined string of that
  item's truthy category values in entry order. No derived tag-record is emitted when
  no entry of any item has a truthy category, or when \<open>elevateChannelCategories\<close> is
  falsy.
\<close>

theorem derived_categories_one_per_item:
  assumes "truthy (title m)" and "truthy (description m)" and "truthy (link m)"
  shows "feedMetaTags m now (map item_node items) =
           Inr (siteMeta m now
                @ (if truthy (with_default (elevateChannelCategories m) (JBool True))
                   then map category_tag (filter (\<lambda>s. s \<noteq> []) (map joined_categories items))
                   else [])
                @ map item_node items)
         \<and> ((\<forall>item\<in>set items. \<forall>entry\<in>set item. \<not> truthy (js_prop entry ''category'')) \<longrightarrow>
              feedMetaTags m now (map item_node items) = Inr (siteMeta m now @ map item_node items))"
proof -
  have none: "filter (\<lambda>s. s \<noteq> []) (map joined_categories items) = []"
    if "\<forall>item\<in>set items. \<forall>entry\<in>set item. \<not> truthy (js_prop entry ''category'')"
  proof -
    have "joined_categories item = []" if "item \<in> set items" for item
    proof -
      from that \<open>\<forall>item\<in>set items. _\<close> have "filter (\<lambda>entry. truthy entry \<and> truthy (js_prop entry ''category'')) item = []"
        by (auto simp: filter_empty_conv)
      then show ?thesis by (simp add: joined_categories_def array_join_def)
    qed
    then show ?thesis by (auto simp: filter_empty_conv)
  qed
  show ?thesis using feedMetaTags_nodes[OF assms, of now items] none by auto
qed

theorem derived_categories_one_per_item_witness:
  "feedMetaTags example_meta example_date (map item_node example_feed) =
     Inr (siteMeta example_meta example_date
          @ [category_tag ''News'', category_tag ''Tech'']
          @ map item_node example_feed)
   \<and> feedMetaTags (example_meta\<lparr>elevateChannelCategories := JBool False\<rparr>) example_date
        (map item_node example_feed) =
     Inr (siteMeta (example_meta\<lparr>elevateChannelCategories := JBool False\<rparr>) example_date
          @ map item_node example_feed)"
proof -
  have j: "map joined_categories example_feed = [''News'', ''Tech'']"
    by (simp add: example_feed_def joined_categories_def array_join_def nullish_def)
  have v: "truthy (title example_meta)" "truthy (description example_meta)" "truthy (link example_meta)"
    by (simp_all add: example_meta_def)
  have a: "feedMetaTags example_meta example_date (map item_node example_feed) =
     Inr (siteMeta example_meta example_date @ [category_tag ''News'', category_tag ''Tech'']
          @ map item_node example_feed)"
    using derived_categories_one_per_item[OF v, of example_date example_feed] j
    by (simp add: example_meta_def with_default_def)
  have b: "feedMetaTags (example_meta\<lparr>elevateChannelCategories := JBool False\<rparr>) example_date
        (map item_node example_feed) =
     Inr (siteMeta (example_meta\<lparr>elevateChannelCategories := JBool False\<rparr>) example_date
          @ map item_node example_feed)"
    using derived_categories_one_per_item[of "example_meta\<lparr>elevateChannelCategories := JBool False\<rparr>" example_date example_feed] v
    by (simp add: with_default_def)
  from a b show ?thesis by simp
qed

section \<open>C2: one failure, two error responses\<close>

text \<open>
  C2 says that a failed render runs the error responder exactly once. The code has two
  handlers that both call \<open>sendError\<close>: the stream's \<open>errors\<close> handler and the
  promise's \<open>catch\<close>. When the metadata assembler throws, the first handler responds
  and removes the error, the stream ends without a value, the promise resolves with
  undefined, the no-data check throws, and the second handler responds again. For a
  meta without a title and an empty feed the calls on the response are these.
\<close>

theorem missing_title_sends_two_error_responses:
  "render [] (example_meta\<lparr>title := JUndefined\<rparr>) None example_date (\<lambda>data. []) =
     Inr \<lparr>events =
            [ResStatus 500,
             ResJson (JObj [(''status'', JNum 500), (''message'', JStr requiredMessage)]),
             Log ''error'' requiredMessage (Error requiredMessage),
             ResStatus 500,
             ResJson (JObj [(''status'', JNum 500), (''message'', JStr noDataMessage)]),
             Log ''error'' noDataMessage (Error noDataMessage)],
          meta_after = example_meta\<lparr>title := JUndefined\<rparr>,
          feed_after = []\<rparr>"
proof -
  have h: "hoistImage [] (example_meta\<lparr>title := JUndefined\<rparr>) = Inr (example_meta\<lparr>title := JUndefined\<rparr>)"
    by (simp add: hoistImage_def)
  show ?thesis
    using render_wf_invalid[OF _ h, of None example_date "\<lambda>data. []"]
    by (simp add: sendError_def)
qed

text \<open>
  Two more ways in which an error does not reach the responder once. An entry that is
  null in an item after the first makes \<open>wrapInItem\<close> throw inside the stream: the
  error is answered with status 500 and the remaining items are still rendered and sent.
  The same entry in the first item makes the first statement of \<open>render\<close> throw before
  the stream exists: nothing catches it and nothing is written.
\<close>

lemma error_in_later_item_sends_both_responses:
  "render [[JObj [(''title'', JStr ''Ep1'')]], [JNull]] example_meta None example_date (\<lambda>data. ''xml'') =
     Inr \<lparr>events =
            sendError (TypeError (''Cannot read property '' @ quoted ''image'' @ '' of null''))
            @ [ResType ''text/rss+xml'', ResSend ''xml''],
          meta_after = example_meta,
          feed_after = [[JObj [(''title'', JStr ''Ep1'')]], [JNull]]\<rparr>"
  by code_simp

lemma null_entry_in_first_item_is_not_caught:
  "render [[JNull]] example_meta None example_date (\<lambda>data. ''xml'') =
     Inl (TypeError (''Cannot read property '' @ quoted ''image'' @ '' of null''))"
  by code_simp

section \<open>C3: the entry normalizer\<close>

text \<open>
  C3 as stated fails: \<open>wrapInItem\<close> does not look for a tag-record keyed \<open>image\<close>, it
  looks for the first entry whose \<open>image\<close> property is truthy. A tag-record
  \<open>{image: ''}\<close> is keyed \<open>image\<close> and stays in the item.
\<close>

theorem wrapInItem_keeps_falsy_image:
  "has_key (JObj [(''image'', JStr [])]) ''image'' \<and>
   wrapInItem [JObj [(''image'', JStr [])], JObj [(''title'', JStr ''a'')]] =
     Inr ([JObj [(''image'', JStr [])], JObj [(''title'', JStr ''a'')]],
          JObj [(''item'', JArr [JObj [(''image'', JStr [])], JObj [(''title'', JStr ''a'')]])])"
  by (simp add: has_key_def wrapInItem_def getProp_def nullish_def Let_def)

text \<open>
  C3, amended: for every feed item, if the item has an entry whose \<open>image\<close> value is
  truthy, and no entry before the first such entry is null or undefined, then exactly
  that first entry is removed and the other entries keep their order inside the
  \<open>item\<close> wrapper; if no entry has a truthy \<open>image\<close> value (and none is null or
  undefined), the item is wrapped unchanged. The remaining case is an entry that is
  null or undefined and met by the scan: there \<open>wrapInItem\<close> throws.
\<close>

theorem wrapInItem_removes_first_truthy_image:
  "(\<forall>pre x post.
      entry = pre @ x # post \<and> (\<forall>p\<in>set pre. \<not> nullish p \<and> \<not> has_image p) \<and> has_image x
      \<longrightarrow> wrapInItem entry = Inr (pre @ post, item_node (pre @ post)))
   \<and> ((\<forall>e\<in>set entry. \<not> nullish e \<and> \<not> has_image e)
      \<longrightarrow> wrapInItem entry = Inr (entry, item_node entry))
   \<and> (\<forall>pre x post.
      entry = pre @ x # post \<and> (\<forall>p\<in>set pre. \<not> nullish p \<and> \<not> has_image p) \<and> nullish x
      \<longrightarrow> wrapInItem entry =
            Inl (TypeError (''Cannot read property '' @ quoted ''image'' @ '' of '' @ nullish_name x)))"
  using wrapInItem_found wrapInItem_none wrapInItem_throws by blast

theorem wrapInItem_removes_first_truthy_image_witness:
  "wrapInItem [JObj [(''title'', JStr ''a'')],
               JObj [(''image'', JObj [(''url'', JStr ''u'')])],
               JObj [(''guid'', JNum 3)]] =
     Inr ([JObj [(''title'', JStr ''a'')], JObj [(''guid'', JNum 3)]],
          item_node [JObj [(''title'', JStr ''a'')], JObj [(''guid'', JNum 3)]])
   \<and> wrapInItem [JObj [(''title'', JStr ''a'')]] =
     Inr ([JObj [(''title'', JStr ''a'')]], item_node [JObj [(''title'', JStr ''a'')]])"
proof -
  let ?t = "JObj [(''title'', JStr ''a'')]"
  let ?i = "JObj [(''image'', JObj [(''url'', JStr ''u'')])]"
  let ?g = "JObj [(''guid'', JNum 3)]"
  have "[?t, ?i, ?g] = [?t] @ ?i # [?g] \<and> (\<forall>p\<in>set [?t]. \<not> nullish p \<and> \<not> has_image p) \<and> has_image ?i
        \<longrightarrow> wrapInItem [?t, ?i, ?g] = Inr ([?t] @ [?g], item_node ([?t] @ [?g]))"
    using wrapInItem_removes_first_truthy_image[of "[?t, ?i, ?g]"] by blast
  then have a: "wrapInItem [?t, ?i, ?g] = Inr ([?t, ?g], item_node [?t, ?g])"
    by (simp add: nullish_def has_image_def)
  have "(\<forall>e\<in>set [?t]. \<not> nullish e \<and> \<not> has_image e)
        \<longrightarrow> wrapInItem [?t] = Inr ([?t], item_node [?t])"
    using wrapInItem_removes_first_truthy_image[of "[?t]"] by blast
  then have b: "wrapInItem [?t] = Inr ([?t], item_node [?t])"
    by (simp add: nullish_def has_image_def)
  from a b show ?thesis by simp
qed

section \<open>C4: images in items and the channel image\<close>

text \<open>
  C4 as stated fails. The channel image is not influenced by the first feed item alone:
  \<open>feedMetaTags\<close> emits the image tag for whatever \<open>meta.image\<close> holds, and the first
  statement of \<open>render\<close> overwrites \<open>meta.image\<close> only when the first item yields a
  truthy url. A caller's own \<open>meta.image\<close> reaches the channel, here with an empty
  feed. (The first half of the claim fails as C3 does: an entry keyed \<open>image\<close> with a
  falsy value, or a second image entry, stays in its item.)
\<close>

theorem caller_image_reaches_channel:
  "hoistImage [] (example_meta\<lparr>image_meta := JObj [(''url'', JStr ''http://x/i.png'')]\<rparr>) =
     Inr (example_meta\<lparr>image_meta := JObj [(''url'', JStr ''http://x/i.png'')]\<rparr>)
   \<and> pipeline [] (example_meta\<lparr>image_meta := JObj [(''url'', JStr ''http://x/i.png'')]\<rparr>) None example_date =
     [Inr (JObj [(''rss'',
        JArr [JObj [(''_attr'', JObj defaultNamespaces)],
              JObj [(''channel'',
                JArr [JObj [(''title'', JStr ''Show'')],
                      JObj [(''description'', JStr ''D'')],
                      JObj [(''link'', JStr ''http://x'')],
                      JObj [(''lastBuildDate'', JStr ''Mon, 01 Jan 2018 00:00:00 +0000'')],
                      JObj [(''docs'', JStr ''http://blogs.law.harvard.edu/tech/rss'')],
                      JObj [(''copyright'', JNum 2018)],
                      JObj [(''generator'', JStr ''Feed delivered by Clay'')],
                      JObj [(''image'', JArr [JObj [(''url'', JStr ''http://x/i.png'')],
                                              JObj [(''link'', JStr ''http://x'')],
                                              JObj [(''title'', JStr ''Show'')]])]])]])])]"
  by code_simp

text \<open>
  C4, amended: for every feed whose entries are not null or undefined, and every valid
  meta, each emitted item is its feed item without the first entry whose \<open>image\<close>
  value is truthy, so the entries with a truthy image that remain in an emitted item
  are all but the first of the original ones (none, when the item has at most one). The
  channel image tag is built from the url read off the first such entry of the first
  feed item when that url is truthy; otherwise it is the tag for the \<open>meta.image\<close>
  the caller passed, and absent when there is none. Items after the first never
  influence it.
\<close>

theorem image_entries_and_channel_image:
  assumes wf: "\<forall>item\<in>set feed. \<forall>e\<in>set item. \<not> nullish e"
    and valid: "truthy (title m)" "truthy (description m)" "truthy (link m)"
  shows "\<exists>out.
           render feed m attr now xml = Inr out
         \<and> events out =
             [ResType ''text/rss+xml'',
              ResSend (xml (wrapInTopLevel
                (base_records m now
                 @ opt_records m
                 @ (if feed \<noteq> [] \<and> truthy (first_image_url (hd feed))
                    then [formatImageTag (first_image_url (hd feed)) (link m) (title m)]
                    else image_records m)
                 @ (if truthy (with_default (elevateChannelCategories m) (JBool True))
                    then map category_tag (filter (\<lambda>s. s \<noteq> [])
                           (map joined_categories (map (without_first has_image) feed)))
                    else [])
                 @ map item_node (map (without_first has_image) feed)) attr))]
         \<and> (\<forall>item\<in>set feed.
               filter has_image (without_first has_image item) = tl (filter has_image item))"
proof -
  from hoistImage_wf[OF wf] obtain m' where hoist: "hoistImage feed m = Inr m'" by blast
  show ?thesis
    using render_wf_valid[OF wf hoist valid, of attr now xml]
      hoisted_image_records[OF hoist]
    by (simp add: siteMeta_parts filter_without_first)
qed

theorem image_entries_and_channel_image_witness:
  "\<exists>out.
     render two_image_feed example_meta None example_date
       (\<lambda>data. if data = two_image_tree then ''expected'' else ''other'') = Inr out
   \<and> events out = [ResType ''text/rss+xml'', ResSend ''expected'']"
proof -
  let ?xml = "\<lambda>data. if data = two_image_tree then ''expected'' else ''other''"
  have ne: "two_image_feed \<noteq> []" by (simp add: two_image_feed_def)
  from image_entries_and_channel_image[OF two_image_feed_wf example_meta_valid,
      of None example_date ?xml]
  obtain out where
    r: "render two_image_feed example_meta None example_date ?xml = Inr out"
    and e: "events out =
             [ResType ''text/rss+xml'',
              ResSend (?xml (wrapInTopLevel
                (base_records example_meta example_date
                 @ opt_records example_meta
                 @ (if two_image_feed \<noteq> [] \<and> truthy (first_image_url (hd two_image_feed))
                    then [formatImageTag (first_image_url (hd two_image_feed))
                            (link example_meta) (title example_meta)]
                    else image_records example_meta)
                 @ (if truthy (with_default (elevateChannelCategories example_meta) (JBool True))
                    then map category_tag (filter (\<lambda>s. s \<noteq> [])
                           (map joined_categories (map (without_first has_image) two_image_feed)))
                    else [])
                 @ map item_node (map (without_first has_image) two_image_feed)) None))]"
    by blast
  have t: "wrapInTopLevel
                (base_records example_meta example_date
                 @ opt_records example_meta
                 @ (if two_image_feed \<noteq> [] \<and> truthy (first_image_url (hd two_image_feed))
                    then [formatImageTag (first_image_url (hd two_image_feed))
                            (link example_meta) (title example_meta)]
                    else image_records example_meta)
                 @ (if truthy (with_default (elevateChannelCategories example_meta) (JBool True))
                    then map category_tag (filter (\<lambda>s. s \<noteq> [])
                           (map joined_categories (map (without_first has_image) two_image_feed)))
                    else [])
                 @ map item_node (map (without_first has_image) two_image_feed)) None
           = two_image_tree"
    by (simp add: two_image_first_url two_image_without joined_categories_def array_join_def
        ne base_records_def opt_records_def
        example_meta_def example_date_def formatImageTag_def item_node_def wrapInTopLevel_def
        two_image_tree_def object_assign_def cleanNullValues_def defaultNamespaces_def
        docsUrl_def generatorMessage_def with_default_def)
  from r e t show ?thesis by simp
qed

section \<open>C5: a missing required field\<close>




section \<open>C6: the root attributes\<close>

text \<open>
  C6: for every attribute map (an object, so its keys are distinct; or left out), the
  \<open>_attr\<close> of the root \<open>rss\<close> element has distinct keys, and a key maps to a value
  exactly when the default set (\<open>version\<close> \<open>2.0\<close> and the \<open>content\<close>, \<open>mi\<close>, \<open>dc\<close> and
  \<open>media\<close> namespaces) overridden by the caller's map gives it that value and the value
  is truthy. Without a caller's map the attributes are the default set, in its order.
\<close>

theorem root_attributes_merge_and_drop_falsy:
  assumes "distinct (map fst (case attr of None \<Rightarrow> [] | Some a \<Rightarrow> a))"
  shows "(\<exists>attrs.
            wrapInTopLevel data attr =
              JObj [(''rss'', JArr [JObj [(''_attr'', JObj attrs)], JObj [(''channel'', JArr data)]])]
          \<and> distinct (map fst attrs)
          \<and> (\<forall>k. map_of attrs k =
                 (case (map_of [(''version'', JStr ''2.0''),
                                (''xmlns:content'', JStr ''http://purl.org/rss/1.0/modules/content/''),
                                (''xmlns:mi'', JStr ''http://schemas.ingestion.microsoft.com/common/''),
                                (''xmlns:dc'', JStr ''http://purl.org/dc/elements/1.1/''),
                                (''xmlns:media'', JStr ''http://search.yahoo.com/mrss/'')]
                        ++ map_of (case attr of None \<Rightarrow> [] | Some a \<Rightarrow> a)) k of
                    None \<Rightarrow> None
                  | Some v \<Rightarrow> if truthy v then Some v else None)))
       \<and> wrapInTopLevel data None =
           JObj [(''rss'',
                  JArr [JObj [(''_attr'',
                               JObj [(''version'', JStr ''2.0''),
                                     (''xmlns:content'', JStr ''http://purl.org/rss/1.0/modules/content/''),
                                     (''xmlns:mi'', JStr ''http://schemas.ingestion.microsoft.com/common/''),
                                     (''xmlns:dc'', JStr ''http://purl.org/dc/elements/1.1/''),
                                     (''xmlns:media'', JStr ''http://search.yahoo.com/mrss/'')])],
                        JObj [(''channel'', JArr data)]])]"
proof -
  let ?a = "case attr of None \<Rightarrow> [] | Some a \<Rightarrow> a"
  let ?merged = "object_assign defaultNamespaces ?a"
  have d: "distinct (map fst ?merged)"
    by (rule distinct_object_assign[OF distinct_defaultNamespaces])
  have m: "map_of ?merged k = (map_of defaultNamespaces ++ map_of ?a) k" for k
    using object_assign_lookup[OF assms, of defaultNamespaces k]
    by (simp add: map_add_def split: option.splits)
  have "map_of (cleanNullValues ?merged) k =
          (case (map_of defaultNamespaces ++ map_of ?a) k of
             None \<Rightarrow> None | Some v \<Rightarrow> if truthy v then Some v else None)" for k
    using cleanNullValues_lookup[OF d, of k] m[of k] by simp
  then have l: "\<forall>k. map_of (cleanNullValues ?merged) k =
                 (case (map_of [(''version'', JStr ''2.0''),
                                (''xmlns:content'', JStr ''http://purl.org/rss/1.0/modules/content/''),
                                (''xmlns:mi'', JStr ''http://schemas.ingestion.microsoft.com/common/''),
                                (''xmlns:dc'', JStr ''http://purl.org/dc/elements/1.1/''),
                                (''xmlns:media'', JStr ''http://search.yahoo.com/mrss/'')]
                        ++ map_of ?a) k of
                    None \<Rightarrow> None
                  | Some v \<Rightarrow> if truthy v then Some v else None)"
    unfolding defaultNamespaces_def by blast
  have dc: "distinct (map fst (cleanNullValues ?merged))"
    by (rule distinct_cleanNullValues[OF d])
  have w: "wrapInTopLevel data attr =
      JObj [(''rss'', JArr [JObj [(''_attr'', JObj (cleanNullValues ?merged))],
                            JObj [(''channel'', JArr data)]])]"
    by (simp add: wrapInTopLevel_def)
  have n: "wrapInTopLevel data None =
           JObj [(''rss'',
                  JArr [JObj [(''_attr'',
                               JObj [(''version'', JStr ''2.0''),
                                     (''xmlns:content'', JStr ''http://purl.org/rss/1.0/modules/content/''),
                                     (''xmlns:mi'', JStr ''http://schemas.ingestion.microsoft.com/common/''),
                                     (''xmlns:dc'', JStr ''http://purl.org/dc/elements/1.1/''),
                                     (''xmlns:media'', JStr ''http://search.yahoo.com/mrss/'')])],
                        JObj [(''channel'', JArr data)]])]"
    by (simp add: wrapInTopLevel_def object_assign_def cleanNullValues_def defaultNamespaces_def)
  from w dc l n show ?thesis by blast
qed

theorem root_attributes_merge_and_drop_falsy_witness:
  "\<exists>attrs.
     wrapInTopLevel [] (Some [(''xmlns:custom'', JNull), (''xmlns:dc'', JStr ''urn:dc''), (''xmlns:media'', JNum 0)]) =
       JObj [(''rss'', JArr [JObj [(''_attr'', JObj attrs)], JObj [(''channel'', JArr [])]])]
   \<and> map_of attrs ''xmlns:custom'' = None
   \<and> map_of attrs ''xmlns:media'' = None
   \<and> map_of attrs ''xmlns:dc'' = Some (JStr ''urn:dc'')
   \<and> map_of attrs ''version'' = Some (JStr ''2.0'')
   \<and> map_of attrs ''xmlns:content'' = Some (JStr ''http://purl.org/rss/1.0/modules/content/'')
   \<and> map_of attrs ''xmlns:mi'' = Some (JStr ''http://schemas.ingestion.microsoft.com/common/'')
   \<and> map_of attrs ''other'' = None"
proof -
  let ?a = "[(''xmlns:custom'', JNull), (''xmlns:dc'', JStr ''urn:dc''), (''xmlns:media'', JNum 0)]"
  have d: "distinct (map fst (case Some ?a of None \<Rightarrow> [] | Some a \<Rightarrow> a))" by simp
  from root_attributes_merge_and_drop_falsy[OF d, of "[]"] obtain attrs where
    w: "wrapInTopLevel [] (Some ?a) =
          JObj [(''rss'', JArr [JObj [(''_attr'', JObj attrs)], JObj [(''channel'', JArr [])]])]"
    and l: "\<And>k. map_of attrs k =
                (case (map_of [(''version'', JStr ''2.0''),
                                (''xmlns:content'', JStr ''http://purl.org/rss/1.0/modules/content/''),
                                (''xmlns:mi'', JStr ''http://schemas.ingestion.microsoft.com/common/''),
                                (''xmlns:dc'', JStr ''http://purl.org/dc/elements/1.1/''),
                                (''xmlns:media'', JStr ''http://search.yahoo.com/mrss/'')]
                       ++ map_of ?a) k of
                   None \<Rightarrow> None
                 | Some v \<Rightarrow> if truthy v then Some v else None)"
    by auto
  have "map_of attrs ''xmlns:custom'' = None" "map_of attrs ''xmlns:media'' = None"
    "map_of attrs ''xmlns:dc'' = Some (JStr ''urn:dc'')"
    "map_of attrs ''version'' = Some (JStr ''2.0'')"
    "map_of attrs ''xmlns:content'' = Some (JStr ''http://purl.org/rss/1.0/modules/content/'')"
    "map_of attrs ''xmlns:mi'' = Some (JStr ''http://schemas.ingestion.microsoft.com/common/'')"
    "map_of attrs ''other'' = None"
    by (simp_all add: l map_add_def)
  with w show ?thesis by blast
qed

text \<open>The example of the specification: a null \<open>xmlns:custom\<close> leaves the defaults.\<close>

lemma custom_null_attribute_is_omitted:
  "wrapInTopLevel [] (Some [(''xmlns:custom'', JNull)]) =
     JObj [(''rss'',
            JArr [JObj [(''_attr'',
                         JObj [(''version'', JStr ''2.0''),
                               (''xmlns:content'', JStr ''http://purl.org/rss/1.0/modules/content/''),
                               (''xmlns:mi'', JStr ''http://schemas.ingestion.microsoft.com/common/''),
                               (''xmlns:dc'', JStr ''http://purl.org/dc/elements/1.1/''),
                               (''xmlns:media'', JStr ''http://search.yahoo.com/mrss/'')])],
                  JObj [(''channel'', JArr [])]])]"
  by code_simp

section \<open>C7: the channel tag sequence\<close>

text \<open>
  C7 as stated fails for \<open>copyright\<close>: a value that is present but falsy is not
  emitted. With \<open>copyright: 0\<close> the channel holds the year.
\<close>

theorem falsy_copyright_is_replaced:
  "feedMetaTags (example_meta\<lparr>copyright := JNum 0\<rparr>) example_date [] =
     Inr [JObj [(''title'', JStr ''Show'')],
          JObj [(''description'', JStr ''D'')],
          JObj [(''link'', JStr ''http://x'')],
          JObj [(''lastBuildDate'', JStr ''Mon, 01 Jan 2018 00:00:00 +0000'')],
          JObj [(''docs'', JStr ''http://blogs.law.harvard.edu/tech/rss'')],
          JObj [(''copyright'', JNum 2018)],
          JObj [(''generator'', JStr ''Feed delivered by Clay'')]]
   \<and> JObj [(''copyright'', JNum 2018)] \<noteq> JObj [(''copyright'', copyright (example_meta\<lparr>copyright := JNum 0\<rparr>))]"
  by code_simp

text \<open>
  C7, amended: for every valid meta the channel begins with \<open>title\<close>, \<open>description\<close>,
  \<open>link\<close> with the meta's values, then \<open>lastBuildDate\<close>, then \<open>docs\<close> (the meta's
  value unless it is undefined, then the fixed url), \<open>copyright\<close> (the meta's value
  when it is truthy, otherwise the current year) and \<open>generator\<close> (the meta's value
  unless it is undefined, then the fixed label); then the tag-records of \<open>meta.opt\<close> in
  order, then the image tag-record if \<open>meta.image\<close> is truthy, then the derived
  category tag-records if any, then the wrapped items in feed order.
\<close>

theorem channel_tag_sequence:
  assumes "truthy (title m)" and "truthy (description m)" and "truthy (link m)"
  shows "feedMetaTags m now (map item_node items) =
           Inr ([JObj [(''title'', title m)],
                 JObj [(''description'', description m)],
                 JObj [(''link'', link m)],
                 JObj [(''lastBuildDate'', JStr (format now))],
                 JObj [(''docs'', if docs m = JUndefined then JStr docsUrl else docs m)],
                 JObj [(''copyright'',
                        if truthy (copyright m) then copyright m else JNum (getFullYear now))],
                 JObj [(''generator'',
                        if generator m = JUndefined then JStr generatorMessage else generator m)]]
                @ opt_records m
                @ image_records m
                @ (if truthy (with_default (elevateChannelCategories m) (JBool True))
                   then map category_tag (filter (\<lambda>s. s \<noteq> []) (map joined_categories items))
                   else [])
                @ map item_node items)"
  using feedMetaTags_nodes[OF assms, of now items] siteMeta_parts[of m now]
  by (simp add: base_records_def)

theorem channel_tag_sequence_witness:
  "feedMetaTags
     (example_meta\<lparr>copyright := JStr ''(c) 2018'', docs := JStr ''http://docs'',
        opt := JArr [JObj [(''language'', JStr ''en'')]],
        image_meta := JObj [(''url'', JStr ''http://x/i.png'')]\<rparr>)
     example_date (map item_node example_feed) =
   Inr [JObj [(''title'', JStr ''Show'')],
        JObj [(''description'', JStr ''D'')],
        JObj [(''link'', JStr ''http://x'')],
        JObj [(''lastBuildDate'', JStr ''Mon, 01 Jan 2018 00:00:00 +0000'')],
        JObj [(''docs'', JStr ''http://docs'')],
        JObj [(''copyright'', JStr ''(c) 2018'')],
        JObj [(''generator'', JStr ''Feed delivered by Clay'')],
        JObj [(''language'', JStr ''en'')],
        JObj [(''image'', JArr [JObj [(''url'', JStr ''http://x/i.png'')],
                                JObj [(''link'', JStr ''http://x'')],
                                JObj [(''title'', JStr ''Show'')]])],
        JObj [(''category'', JStr ''News'')],
        JObj [(''category'', JStr ''Tech'')],
        JObj [(''item'', JArr [JObj [(''title'', JStr ''Ep1'')], JObj [(''category'', JStr ''News'')]])],
        JObj [(''item'', JArr [JObj [(''title'', JStr ''Ep2'')], JObj [(''category'', JStr ''Tech'')]])]]"
proof -
  let ?m = "example_meta\<lparr>copyright := JStr ''(c) 2018'', docs := JStr ''http://docs'',
        opt := JArr [JObj [(''language'', JStr ''en'')]],
        image_meta := JObj [(''url'', JStr ''http://x/i.png'')]\<rparr>"
  have v: "truthy (title ?m)" "truthy (description ?m)" "truthy (link ?m)"
    by (simp_all add: example_meta_def)
  have j: "map joined_categories example_feed = [''News'', ''Tech'']"
    by (simp add: example_feed_def joined_categories_def array_join_def nullish_def)
  show ?thesis
    using channel_tag_sequence[OF v, of example_date example_feed] j
    by (simp add: example_meta_def example_date_def example_feed_def opt_records_def
        image_records_def with_default_def item_node_def category_tag_def generatorMessage_def)
qed

section \<open>C8: the shape of the channel image\<close>

text \<open>
  C8 as stated fails in one point: the url of an emitted image tag need not come from
  hoisted image data. When the feed is empty or its first item yields no url, nothing
  is hoisted, and a \<open>meta.image\<close> that the caller passed is emitted with the caller's
  url.
\<close>

theorem caller_image_url_is_not_hoisted:
  "hoistImage [] (example_meta\<lparr>image_meta := JObj [(''url'', JStr ''http://x/caller.png'')]\<rparr>) =
       Inr (example_meta\<lparr>image_meta := JObj [(''url'', JStr ''http://x/caller.png'')]\<rparr>)
   \<and> first_image_url [JObj [(''title'', JStr ''Ep1'')]] = JUndefined
   \<and> hoistImage [[JObj [(''title'', JStr ''Ep1'')]]]
        (example_meta\<lparr>image_meta := JObj [(''url'', JStr ''http://x/caller.png'')]\<rparr>) =
       Inr (example_meta\<lparr>image_meta := JObj [(''url'', JStr ''http://x/caller.png'')]\<rparr>)
   \<and> feedMetaTags (example_meta\<lparr>image_meta := JObj [(''url'', JStr ''http://x/caller.png'')]\<rparr>)
        example_date [] =
       Inr [JObj [(''title'', JStr ''Show'')],
            JObj [(''description'', JStr ''D'')],
            JObj [(''link'', JStr ''http://x'')],
            JObj [(''lastBuildDate'', JStr ''Mon, 01 Jan 2018 00:00:00 +0000'')],
            JObj [(''docs'', JStr ''http://blogs.law.harvard.edu/tech/rss'')],
            JObj [(''copyright'', JNum 2018)],
            JObj [(''generator'', JStr ''Feed delivered by Clay'')],
            JObj [(''image'', JArr [JObj [(''url'', JStr ''http://x/caller.png'')],
                                    JObj [(''link'', JStr ''http://x'')],
                                    JObj [(''title'', JStr ''Show'')]])]]"
  by code_simp

text \<open>
  C8, amended: whenever the channel holds an image tag-record (\<open>meta.image\<close> is truthy
  after the first statement of \<open>render\<close>), that record follows the seven fixed tags and
  the \<open>opt\<close> records and is \<open>{image: [{url}, {link}, {title}]}\<close>, where \<open>link\<close> and
  \<open>title\<close> are the meta's own and \<open>url\<close> is the url of \<open>meta.image\<close>: the url
  hoisted from the first feed item when that is truthy, and otherwise the url of the
  \<open>meta.image\<close> the caller passed.
\<close>

theorem channel_image_record:
  assumes hoist: "hoistImage feed m = Inr m'"
    and ch: "feedMetaTags m' now grp = Inr channel"
    and img: "truthy (image_meta m')"
  shows "channel ! (7 + length (opt_records m)) =
           JObj [(''image'',
                  JArr [JObj [(''url'', js_prop (image_meta m') ''url'')],
                        JObj [(''link'', link m)],
                        JObj [(''title'', title m)]])]
         \<and> (feed \<noteq> [] \<and> truthy (first_image_url (hd feed)) \<longrightarrow>
              js_prop (image_meta m') ''url'' = first_image_url (hd feed))
         \<and> (\<not> (feed \<noteq> [] \<and> truthy (first_image_url (hd feed))) \<longrightarrow>
              image_meta m' = image_meta m)"
proof -
  have m': "m' = (if feed \<noteq> [] \<and> truthy (first_image_url (hd feed))
               then m\<lparr>image_meta := JObj [(''url'', first_image_url (hd feed))]\<rparr> else m)"
    by (rule hoistImage_Inr[OF hoist])
  then have same: "link m' = link m" "title m' = title m" "opt_records m' = opt_records m"
    by (simp_all add: opt_records_def)
  from feedMetaTags_Inr[OF ch] obtain cats where
    c: "channel = base_records m' now @ opt_records m' @ image_records m' @ cats @ grp"
    by (auto simp: siteMeta_parts)
  have "channel ! (7 + length (opt_records m)) = hd (image_records m')"
    using c same img by (simp add: nth_append length_base_records image_records_def)
  then have "channel ! (7 + length (opt_records m)) =
           JObj [(''image'',
                  JArr [JObj [(''url'', js_prop (image_meta m') ''url'')],
                        JObj [(''link'', link m)],
                        JObj [(''title'', title m)]])]"
    using img same by (simp add: image_records_def)
  moreover have "feed \<noteq> [] \<and> truthy (first_image_url (hd feed)) \<longrightarrow>
              js_prop (image_meta m') ''url'' = first_image_url (hd feed)"
    using m' by simp
  moreover have "\<not> (feed \<noteq> [] \<and> truthy (first_image_url (hd feed))) \<longrightarrow>
              image_meta m' = image_meta m"
    using m' by simp
  ultimately show ?thesis by blast
qed

theorem channel_image_record_witness:
  "(case hoistImage two_image_feed example_meta of
      Inl e \<Rightarrow> False
    | Inr m' \<Rightarrow>
        (case feedMetaTags m' example_date [] of
           Inl e \<Rightarrow> False
         | Inr channel \<Rightarrow>
             channel ! 7 =
               JObj [(''image'', JArr [JObj [(''url'', JStr ''http://x/a.png'')],
                                       JObj [(''link'', JStr ''http://x'')],
                                       JObj [(''title'', JStr ''Show'')]])]))"
proof -
  from hoistImage_wf[OF two_image_feed_wf] obtain m' where
    h: "hoistImage two_image_feed example_meta = Inr m'" by blast
  have ne: "two_image_feed \<noteq> []" by (simp add: two_image_feed_def)
  have m': "m' = example_meta\<lparr>image_meta := JObj [(''url'', JStr ''http://x/a.png'')]\<rparr>"
    using hoistImage_Inr[OF h] ne by (simp add: two_image_first_url)
  obtain channel where c: "feedMetaTags m' example_date [] = Inr channel"
    using feedMetaTags_nodes[of m' example_date "[]"] m' example_meta_valid by simp
  have i: "truthy (image_meta m')" using m' by simp
  have "channel ! (7 + length (opt_records example_meta)) =
           JObj [(''image'',
                  JArr [JObj [(''url'', js_prop (image_meta m') ''url'')],
                        JObj [(''link'', link example_meta)],
                        JObj [(''title'', title example_meta)]])]"
    using channel_image_record[OF h c i] by blast
  then have "channel ! 7 =
               JObj [(''image'', JArr [JObj [(''url'', JStr ''http://x/a.png'')],
                                       JObj [(''link'', JStr ''http://x'')],
                                       JObj [(''title'', JStr ''Show'')]])]"
    using m' by (simp add: opt_records_def example_meta_def)
  with h c show ?thesis by simp
qed

section \<open>C9: the caller's feed after a render\<close>

text \<open>
  C9 as stated fails: the current \<open>wrapInItem\<close> splices only when the scan finds an
  image, so a non-empty item without one loses nothing and the feed is preserved.
\<close>

theorem feed_without_image_is_preserved:
  "(case render [[JObj [(''title'', JStr ''Ep1'')]]] example_meta None example_date (\<lambda>data. []) of
      Inl e \<Rightarrow> False
    | Inr out \<Rightarrow> feed_after out = [[JObj [(''title'', JStr ''Ep1'')]]])
   \<and> wrapInItem [JObj [(''title'', JStr ''Ep1'')]] =
       Inr ([JObj [(''title'', JStr ''Ep1'')]], JObj [(''item'', JArr [JObj [(''title'', JStr ''Ep1'')]])])"
proof -
  have wf: "\<forall>item\<in>set [[JObj [(''title'', JStr ''Ep1'')]]]. \<forall>e\<in>set item. \<not> nullish e"
    by (simp add: nullish_def)
  from hoistImage_wf[OF wf] obtain m' where
    h: "hoistImage [[JObj [(''title'', JStr ''Ep1'')]]] example_meta = Inr m'" by blast
  have "wrapInItem [JObj [(''title'', JStr ''Ep1'')]] =
       Inr ([JObj [(''title'', JStr ''Ep1'')]], JObj [(''item'', JArr [JObj [(''title'', JStr ''Ep1'')]])])"
    by (simp add: wrapInItem_def getProp_def nullish_def Let_def)
  then show ?thesis
    using render_wf_valid[OF wf h example_meta_valid, of None example_date "\<lambda>data. []"]
    by (simp add: has_image_def)
qed

text \<open>
  C9, amended: \<open>render\<close> mutates the caller's feed arrays in place. For every feed
  whose entries are not null or undefined, each array holds after the call what it held
  before without the first entry whose \<open>image\<close> value is truthy: an array with such an
  entry is one shorter, an array without one is unchanged. The arrays inside the emitted
  item nodes are these same arrays.
\<close>

theorem render_splices_the_callers_arrays:
  assumes wf: "\<forall>item\<in>set feed. \<forall>e\<in>set item. \<not> nullish e"
  shows "\<exists>out.
           render feed m attr now xml = Inr out
         \<and> feed_after out = map (without_first has_image) feed
         \<and> (\<forall>item\<in>set feed.
               (list_ex has_image item \<longrightarrow>
                  Suc (length (without_first has_image item)) = length item)
             \<and> (\<not> list_ex has_image item \<longrightarrow> without_first has_image item = item))
         \<and> (truthy (title m) \<and> truthy (description m) \<and> truthy (link m) \<longrightarrow>
              (\<exists>tags. events out =
                 [ResType ''text/rss+xml'',
                  ResSend (xml (wrapInTopLevel (tags @ map item_node (feed_after out)) attr))]))"
proof -
  from hoistImage_wf[OF wf] obtain m' where hoist: "hoistImage feed m = Inr m'" by blast
  have sp: "map spliced feed = map (without_first has_image) feed"
    using wf by (simp add: spliced_wf)
  obtain evs where r: "render feed m attr now xml =
      Inr \<lparr>events = evs, meta_after = m', feed_after = map (without_first has_image) feed\<rparr>"
    by (cases "hl_errors sendError (pipeline feed m' attr now)") (simp add: render_def hoist sp)
  let ?out = "\<lparr>events = evs, meta_after = m', feed_after = map (without_first has_image) feed\<rparr>"
  have a: "\<forall>item\<in>set feed.
               (list_ex has_image item \<longrightarrow>
                  Suc (length (without_first has_image item)) = length item)
             \<and> (\<not> list_ex has_image item \<longrightarrow> without_first has_image item = item)"
    by (simp add: without_first_none without_first_length)
  have b: "\<exists>tags. events ?out =
                 [ResType ''text/rss+xml'',
                  ResSend (xml (wrapInTopLevel (tags @ map item_node (feed_after ?out)) attr))]"
    if v: "truthy (title m)" "truthy (description m)" "truthy (link m)"
  proof -
    let ?tags = "siteMeta m' now
                      @ (if truthy (with_default (elevateChannelCategories m) (JBool True))
                         then map category_tag (filter (\<lambda>s. s \<noteq> [])
                                (map joined_categories (map (without_first has_image) feed)))
                         else [])"
    from render_wf_valid[OF wf hoist v, of attr now xml] r
    have "evs = [ResType ''text/rss+xml'',
                   ResSend (xml (wrapInTopLevel
                     (?tags @ map item_node (map (without_first has_image) feed)) attr))]"
      by simp
    then show ?thesis by (intro exI[of _ ?tags]) simp
  qed
  from r a b show ?thesis by (intro exI[of _ ?out]) simp
qed

theorem render_splices_the_callers_arrays_witness:
  "\<exists>out.
     render two_image_feed example_meta None example_date (\<lambda>data. []) = Inr out
   \<and> feed_after out = [[JObj [(''title'', JStr ''Ep1'')]], [JObj [(''title'', JStr ''Ep2'')]]]"
proof -
  from render_splices_the_callers_arrays[OF two_image_feed_wf, of example_meta None example_date "\<lambda>data. []"]
  obtain out where "render two_image_feed example_meta None example_date (\<lambda>data. []) = Inr out"
    and "feed_after out = map (without_first has_image) two_image_feed"
    by blast
  then show ?thesis by (simp add: two_image_without)
qed

section \<open>C10: a falsy copyright\<close>

text \<open>
  C10: when \<open>meta.copyright\<close> is falsy (also when it is supplied as \<open>0\<close> or as the
  empty string), the \<open>copyright\<close> tag of every channel the assembler returns holds the
  current year; when it is truthy, the tag holds the supplied value. The default is
  decided by truthiness, not by absence.
\<close>

theorem falsy_copyright_defaults_to_year:
  assumes "feedMetaTags m now grp = Inr channel"
  shows "(\<not> truthy (copyright m) \<longrightarrow>
            channel ! 5 = JObj [(''copyright'', JNum (getFullYear now))])
       \<and> (truthy (copyright m) \<longrightarrow> channel ! 5 = JObj [(''copyright'', copyright m)])"
proof -
  from feedMetaTags_Inr[OF assms] obtain cats where
    "channel = base_records m now @ opt_records m @ image_records m @ cats @ grp"
    by (auto simp: siteMeta_parts)
  then show ?thesis by (simp add: base_records_def)
qed

theorem falsy_copyright_defaults_to_year_witness:
  "(case feedMetaTags (example_meta\<lparr>copyright := JNum 0\<rparr>) example_date [] of
      Inl e \<Rightarrow> False | Inr channel \<Rightarrow> channel ! 5 = JObj [(''copyright'', JNum 2018)])
   \<and> (case feedMetaTags (example_meta\<lparr>copyright := JStr []\<rparr>) example_date (map item_node example_feed) of
      Inl e \<Rightarrow> False | Inr channel \<Rightarrow> channel ! 5 = JObj [(''copyright'', JNum 2018)])
   \<and> (case feedMetaTags (example_meta\<lparr>copyright := JStr ''Clay''\<rparr>) example_date [] of
      Inl e \<Rightarrow> False | Inr channel \<Rightarrow> channel ! 5 = JObj [(''copyright'', JStr ''Clay'')])"
proof -
  have y: "getFullYear example_date = 2018" by (simp add: example_date_def)
  obtain c1 where c1: "feedMetaTags (example_meta\<lparr>copyright := JNum 0\<rparr>) example_date [] = Inr c1"
    using feedMetaTags_nodes[of "example_meta\<lparr>copyright := JNum 0\<rparr>" example_date "[]"]
    by (simp add: example_meta_def)
  obtain c2 where c2: "feedMetaTags (example_meta\<lparr>copyright := JStr []\<rparr>) example_date (map item_node example_feed) = Inr c2"
    using feedMetaTags_nodes[of "example_meta\<lparr>copyright := JStr []\<rparr>" example_date example_feed]
    by (simp add: example_meta_def)
  obtain c3 where c3: "feedMetaTags (example_meta\<lparr>copyright := JStr ''Clay''\<rparr>) example_date [] = Inr c3"
    using feedMetaTags_nodes[of "example_meta\<lparr>copyright := JStr ''Clay''\<rparr>" example_date "[]"]
    by (simp add: example_meta_def)
  have "c1 ! 5 = JObj [(''copyright'', JNum 2018)]"
    using falsy_copyright_defaults_to_year[OF c1] y by simp
  moreover have "c2 ! 5 = JObj [(''copyright'', JNum 2018)]"
    using falsy_copyright_defaults_to_year[OF c2] y by simp
  moreover have "c3 ! 5 = JObj [(''copyright'', JStr ''Clay'')]"
    using falsy_copyright_defaults_to_year[OF c3] by simp
  ultimately show ?thesis using c1 c2 c3 by simp
qed

section \<open>What the earlier revisions do differently\<close>

lemma splice1_last: "xs \<noteq> [] \<Longrightarrow> splice1 (- 1) xs = butlast xs"
  by (cases xs rule: rev_cases) (simp_all add: splice1_def Let_def)

text \<open>
  The previous revision's \<open>wrapInItem\<close> drops the last tag-record of an item that has no
  image: the scan returns \<open>-1\<close>, and \<open>splice(-1, 1)\<close> removes the last element.
\<close>

lemma wrapInItem_prev_drops_last:
  assumes "\<forall>e\<in>set entry. \<not> nullish e \<and> \<not> has_image e" and "entry \<noteq> []"
  shows "wrapInItem_prev entry = Inr (butlast entry, item_node (butlast entry))"
  using assms findIndex_none[of entry "''image''"]
  by (simp add: wrapInItem_prev_def has_image_def item_node_def Let_def splice1_last)

lemma wrapInItem_prev_example:
  "wrapInItem_prev [JObj [(''title'', JStr ''Ep1'')], JObj [(''category'', JStr ''News'')]] =
     Inr ([JObj [(''title'', JStr ''Ep1'')]], JObj [(''item'', JArr [JObj [(''title'', JStr ''Ep1'')]])])"
  by (simp add: wrapInItem_prev_def getProp_def nullish_def splice1_def Let_def)

text \<open>
  The previous revision's \<open>render\<close> throws before the stream exists when the first item
  has no image: \<open>feed[0][-1]\<close> is undefined and \<open>.image\<close> is read off it.
\<close>

lemma hoistImage_prev_throws:
  assumes "\<forall>e\<in>set first. \<not> nullish e \<and> \<not> has_image e"
  shows "hoistImage_prev (first # rest) m =
           Inl (TypeError (''Cannot read property '' @ quoted ''image'' @ '' of undefined''))"
  using assms findIndex_none[of first "''image''"]
  by (simp add: hoistImage_prev_def has_image_def array_get_def getProp_def nullish_def
      nullish_name_def)

text \<open>In every revision a falsy \<open>copyright\<close> is replaced by the year.\<close>

lemma siteMeta_prev_parts:
  "siteMeta_prev m now =
     [JObj [(''title'', title m)],
      JObj [(''description'', description m)],
      JObj [(''link'', link m)],
      JObj [(''lastBuildDate'', JStr (format now))],
      JObj [(''docs'', if truthy (docs m) then docs m else JStr docsUrl)],
      JObj [(''copyright'', if truthy (copyright m) then copyright m else JNum (getFullYear now))],
      JObj [(''generator'', if truthy (generator m) then generator m else JStr generatorMessage)]]
     @ opt_records m @ image_records m"
  using array_concat_Nil[of "[JObj [(''title'', title m)],
      JObj [(''description'', description m)],
      JObj [(''link'', link m)],
      JObj [(''lastBuildDate'', JStr (format now))],
      JObj [(''docs'', if truthy (docs m) then docs m else JStr docsUrl)],
      JObj [(''copyright'', if truthy (copyright m) then copyright m else JNum (getFullYear now))],
      JObj [(''generator'', if truthy (generator m) then generator m else JStr generatorMessage)]]" "opt m"]
  by (simp add: siteMeta_prev_def opt_records_def image_records_def Let_def formatImageTag_def)

lemma feedMetaTags_prev_falsy_copyright:
  assumes "feedMetaTags_prev m now grp = Inr channel" and "\<not> truthy (copyright m)"
  shows "channel ! 5 = JObj [(''copyright'', JNum (getFullYear now))]"
proof -
  from assms(1) obtain cats where "channel = siteMeta_prev m now @ cats @ grp"
    by (auto simp: feedMetaTags_prev_def split: if_splits sum.splits)
  with assms(2) show ?thesis by (simp add: siteMeta_prev_parts)
qed

lemma array_concat_Cons: "array_concat (x # xs) v = x # array_concat xs v"
  by (cases v) simp_all

lemma feedMetaTags_podcast_falsy_copyright:
  assumes "feedMetaTags_podcast m now grp = Inr channel" and "\<not> truthy (copyright m)"
  shows "channel ! 5 = JObj [(''copyright'', JNum (getFullYear now))]"
proof -
  from assms(1) obtain cats where c: "channel = siteMeta_podcast m now @ cats @ grp"
    by (auto simp: feedMetaTags_podcast_def split: if_splits sum.splits)
  have "(siteMeta_podcast m now @ cats @ grp) ! 5 = JObj [(''copyright'', JNum (getFullYear now))]"
    using assms(2) by (simp add: siteMeta_podcast_def Let_def array_concat_Cons)
  with c show ?thesis by simp
qed

text \<open>The podcast revision never takes an image out of an item.\<close>

lemma wrapInItem_podcast_keeps_image:
  "wrapInItem_podcast [JObj [(''image'', JObj [(''url'', JStr ''u'')])]] =
     JObj [(''item'', JArr [JObj [(''image'', JObj [(''url'', JStr ''u'')])]])]"
  by (simp add: wrapInItem_podcast_def)

text \<open>
  The podcast revision's root element carries the version alone, whatever the
  namespaces: the cleaned object is dropped because the cleaner returns nothing.
\<close>

lemma wrapInTopLevel_podcast_attrs:
  "wrapInTopLevel_podcast data attr =
     JObj [(''rss'', JArr [JObj [(''_attr'', JObj [(''version'', JStr ''2.0'')])],
                           JObj [(''channel'', JArr data)]])]"
  by (simp add: wrapInTopLevel_podcast_def cleanNullValues_podcast_def object_assign_value_def)

end
